theory Spec2Isabelle
  imports Complex_Main "HOL-Library.AList"
begin

section \<open>The synthesis engine of ImagineKeys (class PianoModel)\<close>

text \<open>
  The class \<^verbatim>\<open>PianoModel\<close> keeps the instrument parameters, the shared output path and
  the registry \<^verbatim>\<open>activeNotes\<close> of sounding voices, and drives the Web Audio backend.
  The embedding follows the methods of the class one by one.

  \<^item> JavaScript numbers are modelled as real numbers: rounding of IEEE doubles is not
    modelled, and neither are \<^verbatim>\<open>NaN\<close> and the infinities.
  \<^item> A pitch (\<^verbatim>\<open>midiNote\<close>) is an integer. Distinct pitches have distinct property keys,
    so the registry is keyed by the pitch, which stands for its key; what \<^verbatim>\<open>parseInt\<close>
    reads from the key of a pitch is \<open>parseInt_key\<close> below.
  \<^item> Every object the code allocates (audio nodes, voice records) has a reference, a
    natural number taken from the counter \<open>next_ref\<close>; \<^verbatim>\<open>===\<close> on objects compares references.
  \<^item> The backend is observed through the sequence of calls the code makes on it
    (\<open>calls\<close>), in program order, and through the console (\<open>console\<close>).
  \<^item> What the backend answers during one call of a method is the environment \<open>env\<close> of
    that call: the clock, the current value of an audio parameter, and which automation
    and \<^verbatim>\<open>stop\<close> calls raise an exception. These are the calls the source guards with
    \<^verbatim>\<open>try\<close> in \<^verbatim>\<open>forceStopNote\<close>; they may raise wherever they occur, guarded or not.
    Creating, connecting and starting nodes and assigning attributes do not raise.
    The environment also holds \<open>leading_digit\<close>, the first digit of the numeral that
    \<^verbatim>\<open>Number.prototype.toString\<close> prints for a number.
  \<^item> Default arguments (\<^verbatim>\<open>velocity = 0.7\<close>, \<^verbatim>\<open>immediate = false\<close>) are supplied by the
    caller: every operation takes all its arguments.
\<close>

subsection \<open>Data\<close>

type_synonym ref = nat

record dims =
  length_cm :: real
  width_cm :: real
  height_cm :: real

text \<open>The object literal stored in \<^verbatim>\<open>activeNotes[midiNote]\<close>; \<open>ident\<close> is its own reference.\<close>

record voice =
  ident :: ref
  oscillator :: ref
  oscillator2 :: ref
  oscillator3 :: ref
  oscillator4 :: "ref option"
  noteGain :: ref
  filter_node :: ref
  harmonicGain :: ref
  effectGain :: ref
  experimentalGain :: "ref option"
  releaseTime :: real

text \<open>
  The Float32Array returned by \<^verbatim>\<open>makeDistortionCurve(amount)\<close> is kept as the material
  and the amount it was computed from; its samples are not modelled.
\<close>

datatype curve = MakeDistortionCurve string real

datatype call =
    CreateOscillator ref
  | CreateGain ref
  | CreateBiquadFilter ref
  | CreateWaveShaper ref
  | SetType ref string
  | SetFrequency ref real
  | SetGain ref real
  | SetQ ref real
  | SetCurve ref curve
  | SetOversample ref string
  | Connect ref ref
  | ConnectDestination ref
  | Disconnect ref
  | Start ref real
  | Stop ref real
  | CancelScheduledValues ref real
  | SetValueAtTime ref real real
  | LinearRampToValueAtTime ref real real
  | Resume
  | ShowMessage string

datatype error = BackendError ref

datatype message =
    DimensionsUpdated real real real
  | AdjustingMasterVolume real
  | LargeEnoughForEnhancement
  | BuildingPiano dims string
  | PianoBuilt string
  | PianoNotBuilt
  | ErrorStoppingOscillatorsInStopNote error
  | NoteCleanupComplete int
  | BackupCleanupFor int
  | EmergencyCleanupFor int
  | ErrorStoppingOscillators error
  | ErrorInForceStopNote error
  | ForceStopped int
  | SafetyCheckFound nat
  | SafetyForceStopped int

datatype console_entry = Log message | Warn message | Error message

text \<open>
  The three callbacks \<^verbatim>\<open>stopNote\<close> hands to \<^verbatim>\<open>setTimeout\<close>. Each closure captures
  \<^verbatim>\<open>midiNote\<close>; the backup and the emergency closure also capture \<^verbatim>\<open>note\<close>.
\<close>

datatype cleanup = Primary int | Backup int voice | Emergency int voice

record timer =
  delay_ms :: real
  callback :: cleanup

record piano =
  isBuilt :: bool
  dimensions :: dims
  material :: string
  masterGain :: ref
  masterGain_value :: real
  distortion :: "ref option"
  activeNotes :: "(int \<times> voice) list"
  timers :: "timer list"
  calls :: "call list"
  console :: "console_entry list"
  next_ref :: ref

record env =
  currentTime :: real
  param_value :: "ref \<Rightarrow> real"
  automation_throws :: "ref \<Rightarrow> bool"
  stop_throws :: "ref \<Rightarrow> bool"
  leading_digit :: "int \<Rightarrow> int"
  suspended :: bool
  has_showMessage :: bool

subsection \<open>Statements that may raise\<close>

text \<open>
  A statement takes the state to a completion and the state it leaves behind: an
  exception does not undo the assignments made before it.
\<close>

datatype completion = Normal | Throw error

type_synonym action = "piano \<Rightarrow> completion \<times> piano"

definition skip :: action where
  "skip s = (Normal, s)"

definition and_then :: "action \<Rightarrow> action \<Rightarrow> action" where
  "and_then a b s = (case a s of (Normal, s') \<Rightarrow> b s' | (Throw err, s') \<Rightarrow> (Throw err, s'))"

fun run :: "action list \<Rightarrow> action" where
  "run [] = skip"
| "run (a # as) = and_then a (run as)"

text \<open>\<^verbatim>\<open>try { body } catch (e) { handler }\<close>\<close>

definition try_catch :: "action \<Rightarrow> (error \<Rightarrow> action) \<Rightarrow> action" where
  "try_catch body handler s =
     (case body s of (Normal, s') \<Rightarrow> (Normal, s') | (Throw err, s') \<Rightarrow> handler err s')"

text \<open>
  \<^verbatim>\<open>try { body } finally { fin }\<close>: the finaliser runs on every completion of the body,
  and the completion of the body stands unless the finaliser raises itself.
\<close>

definition try_finally :: "action \<Rightarrow> action \<Rightarrow> action" where
  "try_finally body fin s =
     (case body s of (c, s') \<Rightarrow>
        (case fin s' of (Normal, s'') \<Rightarrow> (c, s'') | (Throw err, s'') \<Rightarrow> (Throw err, s'')))"

definition for_each :: "'a list \<Rightarrow> ('a \<Rightarrow> action) \<Rightarrow> action" where
  "for_each xs f = run (map f xs)"

text \<open>A statement whose form depends on what it reads from the state.\<close>

definition with_state :: "(piano \<Rightarrow> action) \<Rightarrow> action" where
  "with_state f s = f s s"

definition modify :: "(piano \<Rightarrow> piano) \<Rightarrow> action" where
  "modify f s = (Normal, f s)"

definition emits :: "call list \<Rightarrow> action" where
  "emits cs = modify (\<lambda>s. s\<lparr>calls := calls s @ cs\<rparr>)"

definition emit :: "call \<Rightarrow> action" where
  "emit c = emits [c]"

definition console_log :: "console_entry \<Rightarrow> action" where
  "console_log entry = modify (\<lambda>s. s\<lparr>console := console s @ [entry]\<rparr>)"

text \<open>A call on the automation interface of the audio parameter of node \<open>g\<close>.\<close>

definition automation :: "env \<Rightarrow> ref \<Rightarrow> call \<Rightarrow> action" where
  "automation e g c s = (if automation_throws e g then (Throw (BackendError g), s) else emit c s)"

text \<open>\<^verbatim>\<open>osc.stop(stopTime)\<close>\<close>

definition stop_osc :: "env \<Rightarrow> ref \<Rightarrow> real \<Rightarrow> action" where
  "stop_osc e osc stopTime s =
     (if stop_throws e osc then (Throw (BackendError osc), s) else emit (Stop osc stopTime) s)"

subsection \<open>The registry as a JavaScript object\<close>

text \<open>
  \<^verbatim>\<open>activeNotes\<close> is an object used as a dictionary: an association list in property
  creation order, read with \<open>map_of\<close>, written with \<open>AList.update\<close> (an existing key keeps
  its place, a new one goes last) and \<open>AList.delete\<close>. \<^verbatim>\<open>Object.keys\<close> lists the array
  indices (0 to 2^32 - 2) in ascending order first, then the other keys in creation order.
\<close>

definition is_array_index :: "int \<Rightarrow> bool" where
  "is_array_index k \<longleftrightarrow> 0 \<le> k \<and> k \<le> 4294967294"

definition object_keys :: "(int \<times> 'v) list \<Rightarrow> int list" where
  "object_keys props =
     (let ks = map fst props
      in sort (filter is_array_index ks) @ filter (\<lambda>k. \<not> is_array_index k) ks)"

text \<open>
  \<^verbatim>\<open>parseInt(key)\<close> for the key of pitch \<open>k\<close>. Below 10^21 in magnitude the key is the
  decimal numeral of \<open>k\<close> and \<^verbatim>\<open>parseInt\<close> reads \<open>k\<close> back. From 10^21 on the key is in
  exponent notation, as in \<^verbatim>\<open>-1e+21\<close>, and \<^verbatim>\<open>parseInt\<close> reads the sign and the one digit
  before the point or the \<^verbatim>\<open>e\<close>: a digit from 1 to 9.
\<close>

definition parseInt_key :: "env \<Rightarrow> int \<Rightarrow> int" where
  "parseInt_key e k =
     (if \<bar>k\<bar> < 10 ^ 21 then k else sgn k * max 1 (min 9 (leading_digit e k)))"

subsection \<open>forceStopNote\<close>

text \<open>
  The three automation calls made on one gain parameter: cancel, pin the current value,
  ramp to zero at \<open>endTime\<close>.
\<close>

definition fade_calls :: "env \<Rightarrow> ref \<Rightarrow> real \<Rightarrow> call list" where
  "fade_calls e g endTime =
     [CancelScheduledValues g (currentTime e),
      SetValueAtTime g (param_value e g) (currentTime e),
      LinearRampToValueAtTime g 0 endTime]"

definition fade :: "env \<Rightarrow> ref \<Rightarrow> real \<Rightarrow> action" where
  "fade e g endTime = for_each (fade_calls e g endTime) (automation e g)"

definition fade_opt :: "env \<Rightarrow> ref option \<Rightarrow> real \<Rightarrow> action" where
  "fade_opt e g endTime = (case g of None \<Rightarrow> skip | Some g' \<Rightarrow> fade e g' endTime)"

text \<open>\<^verbatim>\<open>if (osc) osc.stop(stopTime);\<close>\<close>

definition stop_osc_opt :: "env \<Rightarrow> ref option \<Rightarrow> real \<Rightarrow> action" where
  "stop_osc_opt e osc stopTime = (case osc of None \<Rightarrow> skip | Some osc' \<Rightarrow> stop_osc e osc' stopTime)"

text \<open>
  The body of the inner \<^verbatim>\<open>try\<close>: the first three oscillators are always objects, the
  fourth may be \<^verbatim>\<open>null\<close>.
\<close>

definition stop_oscillators :: "env \<Rightarrow> voice \<Rightarrow> real \<Rightarrow> action" where
  "stop_oscillators e note stopTime = run
     [stop_osc e (oscillator note) stopTime,
      stop_osc e (oscillator2 note) stopTime,
      stop_osc e (oscillator3 note) stopTime,
      stop_osc_opt e (oscillator4 note) stopTime]"

text \<open>The statements of \<^verbatim>\<open>forceStopNote\<close> after \<^verbatim>\<open>if (!note) return;\<close>.\<close>

definition force_stop_voice :: "env \<Rightarrow> int \<Rightarrow> voice \<Rightarrow> action" where
  "force_stop_voice e midiNote note =
     (let now = currentTime e
      in try_finally
           (try_catch
              (run
                 [fade e (noteGain note) (now + 0.005),
                  fade e (harmonicGain note) (now + 0.005),
                  fade e (effectGain note) (now + 0.005),
                  fade_opt e (experimentalGain note) (now + 0.005),
                  try_catch (stop_oscillators e note (now + 0.01))
                    (\<lambda>err. console_log (Warn (ErrorStoppingOscillators err)))])
              (\<lambda>err. console_log (Error (ErrorInForceStopNote err))))
           (run
              [modify (\<lambda>s. s\<lparr>activeNotes := AList.delete midiNote (activeNotes s)\<rparr>),
               console_log (Log (ForceStopped midiNote))]))"

definition forceStopNote :: "env \<Rightarrow> int \<Rightarrow> action" where
  "forceStopNote e midiNote s =
     (case map_of (activeNotes s) midiNote of
        None \<Rightarrow> (Normal, s)
      | Some note \<Rightarrow> force_stop_voice e midiNote note s)"

subsection \<open>stopNote and its cleanup timers\<close>

definition set_timeout :: "cleanup \<Rightarrow> real \<Rightarrow> action" where
  "set_timeout cb ms = modify (\<lambda>s. s\<lparr>timers := timers s @ [\<lparr>delay_ms = ms, callback = cb\<rparr>]\<rparr>)"

definition cleanupTime :: "voice \<Rightarrow> real" where
  "cleanupTime note = min (releaseTime note + 0.1) 0.5 * 1000"

text \<open>The statements of \<^verbatim>\<open>stopNote\<close> after \<^verbatim>\<open>if (!note) return;\<close>.\<close>

definition release_voice :: "env \<Rightarrow> int \<Rightarrow> voice \<Rightarrow> action" where
  "release_voice e midiNote note =
     (let now = currentTime e
      in run
           [fade e (noteGain note) (now + releaseTime note),
            fade e (harmonicGain note) (now + releaseTime note),
            fade e (effectGain note) (now + releaseTime note),
            fade_opt e (experimentalGain note) (now + releaseTime note),
            try_catch (stop_oscillators e note (now + releaseTime note + 0.15))
              (\<lambda>err. console_log (Warn (ErrorStoppingOscillatorsInStopNote err))),
            set_timeout (Primary midiNote) (cleanupTime note),
            set_timeout (Backup midiNote note) (cleanupTime note + 1000),
            set_timeout (Emergency midiNote note) 5000])"

definition stopNote :: "env \<Rightarrow> int \<Rightarrow> action" where
  "stopNote e midiNote s =
     (case map_of (activeNotes s) midiNote of
        None \<Rightarrow> (Normal, s)
      | Some note \<Rightarrow> release_voice e midiNote note s)"

text \<open>
  A timer that fires runs its callback. The primary callback tests that the key is
  present; the backup and the emergency callback test \<^verbatim>\<open>this.activeNotes[midiNote] === note\<close>.
\<close>

definition same_voice :: "voice option \<Rightarrow> voice \<Rightarrow> bool" where
  "same_voice entry note = (case entry of None \<Rightarrow> False | Some v \<Rightarrow> ident v = ident note)"

fun run_cleanup :: "cleanup \<Rightarrow> action" where
  "run_cleanup (Primary midiNote) s =
     (if map_of (activeNotes s) midiNote \<noteq> None
      then run [modify (\<lambda>s'. s'\<lparr>activeNotes := AList.delete midiNote (activeNotes s')\<rparr>),
                console_log (Log (NoteCleanupComplete midiNote))] s
      else (Normal, s))"
| "run_cleanup (Backup midiNote note) s =
     (if same_voice (map_of (activeNotes s) midiNote) note
      then run [console_log (Warn (BackupCleanupFor midiNote)),
                modify (\<lambda>s'. s'\<lparr>activeNotes := AList.delete midiNote (activeNotes s')\<rparr>)] s
      else (Normal, s))"
| "run_cleanup (Emergency midiNote note) s =
     (if same_voice (map_of (activeNotes s) midiNote) note
      then run [console_log (Error (EmergencyCleanupFor midiNote)),
                modify (\<lambda>s'. s'\<lparr>activeNotes := AList.delete midiNote (activeNotes s')\<rparr>)] s
      else (Normal, s))"

text \<open>The \<open>i\<close>-th pending timer fires and leaves the queue; no timer at \<open>i\<close>, nothing happens.\<close>

definition fire_timer :: "nat \<Rightarrow> action" where
  "fire_timer i s =
     (if i < length (timers s)
      then run_cleanup (callback (timers s ! i))
             (s\<lparr>timers := take i (timers s) @ drop (Suc i) (timers s)\<rparr>)
      else (Normal, s))"

subsection \<open>playNote\<close>

text \<open>The constant expressions of \<^verbatim>\<open>playNote\<close>: pitch to frequency, and the envelope.\<close>

definition frequency_of :: "int \<Rightarrow> real" where
  "frequency_of midiNote = 440 * 2 powr ((real_of_int midiNote - 69) / 12)"

definition attackTime :: "dims \<Rightarrow> real" where
  "attackTime d = max 0.001 (0.1 - (height_cm d / 100) * 0.099)"

definition decayTime :: "dims \<Rightarrow> real" where
  "decayTime d = 0.05 + (height_cm d / 100) * 0.95"

definition sustainLevel :: "dims \<Rightarrow> real" where
  "sustainLevel d = 0.1 + (width_cm d / 200) * 0.8"

definition releaseTime_of :: "dims \<Rightarrow> real" where
  "releaseTime_of d = 0.1 + (length_cm d / 200) * 0.7"

text \<open>The nine audio nodes of one voice, in the order \<^verbatim>\<open>playNote\<close> creates them.\<close>

record nodes =
  osc :: ref
  ngain :: ref
  filt :: ref
  osc2 :: ref
  hgain :: ref
  osc3 :: ref
  egain :: ref
  osc4 :: ref
  xgain :: ref

definition allocate :: "ref \<Rightarrow> nodes" where
  "allocate r =
     \<lparr>osc = r, ngain = r + 1, filt = r + 2, osc2 = r + 3, hgain = r + 4,
      osc3 = r + 5, egain = r + 6, osc4 = r + 7, xgain = r + 8\<rparr>"

text \<open>From \<^verbatim>\<open>createOscillator\<close> to the sub-oscillator's frequency, before the \<^verbatim>\<open>switch\<close>.\<close>

definition create_calls :: "nodes \<Rightarrow> real \<Rightarrow> call list" where
  "create_calls n frequency =
     [CreateOscillator (osc n), CreateGain (ngain n), CreateBiquadFilter (filt n),
      SetType (osc n) ''triangle'', SetFrequency (osc n) frequency,
      SetType (filt n) ''lowpass'',
      CreateOscillator (osc2 n), CreateGain (hgain n),
      SetFrequency (osc2 n) (frequency * 2),
      CreateOscillator (osc3 n), CreateGain (egain n),
      SetFrequency (osc3 n) (frequency * 3),
      CreateOscillator (osc4 n), CreateGain (xgain n),
      SetFrequency (osc4 n) (frequency * 0.5)]"

text \<open>The \<^verbatim>\<open>switch (this.material)\<close>; a material without a case runs no statement.\<close>

definition material_calls :: "string \<Rightarrow> dims \<Rightarrow> real \<Rightarrow> nodes \<Rightarrow> call list" where
  "material_calls m d frequency n =
     (if m = ''wood'' then
        [SetType (osc n) ''triangle'', SetType (osc2 n) ''sine'', SetType (osc3 n) ''sine'',
         SetGain (hgain n) 0.25, SetGain (egain n) 0.08,
         SetType (filt n) ''lowpass'', SetFrequency (filt n) (3500 + length_cm d * 20),
         SetQ (filt n) 0.7]
      else if m = ''metal'' then
        [SetType (osc n) ''triangle'', SetType (osc2 n) ''sawtooth'', SetType (osc3 n) ''triangle'',
         SetGain (hgain n) 0.3, SetGain (egain n) 0.15,
         SetType (filt n) ''highshelf'', SetFrequency (filt n) (2000 + length_cm d * 30),
         SetGain (filt n) 3.0, SetQ (filt n) 1.0]
      else if m = ''glass'' then
        [SetType (osc n) ''sine'', SetType (osc2 n) ''sine'', SetType (osc3 n) ''triangle'',
         SetGain (hgain n) 0.15, SetGain (egain n) 0.1,
         SetType (filt n) ''peaking'', SetFrequency (filt n) (4000 + length_cm d * 40),
         SetGain (filt n) 6.0, SetQ (filt n) 4.0]
      else if m = ''plastic'' then
        [SetType (osc n) ''triangle'',
         SetType (osc2 n) ''sine'', SetType (osc3 n) ''triangle'', SetType (osc4 n) ''sine'',
         SetFrequency (osc2 n) (frequency * 2),
         SetGain (hgain n) 0.2, SetGain (egain n) 0.1, SetGain (xgain n) 0.05,
         SetType (filt n) ''lowshelf'', SetFrequency (filt n) (1000 + length_cm d * 20),
         SetGain (filt n) (- 2.0), SetQ (filt n) 0.8,
         Connect (osc4 n) (xgain n), Connect (xgain n) (filt n)]
      else [])"

definition connect_calls :: "nodes \<Rightarrow> ref \<Rightarrow> call list" where
  "connect_calls n master =
     [Connect (osc3 n) (egain n), Connect (egain n) (filt n),
      Connect (osc2 n) (hgain n), Connect (hgain n) (filt n),
      SetGain (ngain n) 0,
      Connect (osc n) (filt n), Connect (filt n) (ngain n), Connect (ngain n) master]"

definition start_calls :: "string \<Rightarrow> nodes \<Rightarrow> real \<Rightarrow> call list" where
  "start_calls m n now =
     [Start (osc n) now, Start (osc2 n) now, Start (osc3 n) now]
     @ (if m = ''experimental'' then [Start (osc4 n) now] else [])"

text \<open>The object literal assigned to \<^verbatim>\<open>this.activeNotes[midiNote]\<close>.\<close>

definition note_record :: "string \<Rightarrow> dims \<Rightarrow> nodes \<Rightarrow> ref \<Rightarrow> voice" where
  "note_record m d n r =
     \<lparr>ident = r,
      oscillator = osc n,
      oscillator2 = osc2 n,
      oscillator3 = osc3 n,
      oscillator4 = (if m = ''experimental'' then Some (osc4 n) else None),
      noteGain = ngain n,
      filter_node = filt n,
      harmonicGain = hgain n,
      effectGain = egain n,
      experimentalGain = (if m = ''experimental'' then Some (xgain n) else None),
      releaseTime = releaseTime_of d\<rparr>"

text \<open>The envelope: three automation calls on the gain of \<^verbatim>\<open>noteGain\<close>, attack then decay.\<close>

definition envelope_calls :: "dims \<Rightarrow> nodes \<Rightarrow> real \<Rightarrow> real \<Rightarrow> call list" where
  "envelope_calls d n velocity now =
     [SetValueAtTime (ngain n) 0 now,
      LinearRampToValueAtTime (ngain n) velocity (now + attackTime d),
      LinearRampToValueAtTime (ngain n) (sustainLevel d * velocity)
        (now + attackTime d + decayTime d)]"

text \<open>\<^verbatim>\<open>playNote\<close> from the creation of the first oscillator to the end.\<close>

definition start_voice :: "env \<Rightarrow> int \<Rightarrow> real \<Rightarrow> action" where
  "start_voice e midiNote velocity s =
     (let n = allocate (next_ref s);
          frequency = frequency_of midiNote;
          now = currentTime e;
          d = dimensions s;
          m = material s
      in run
           [modify (\<lambda>s'. s'\<lparr>next_ref := next_ref s' + 9\<rparr>),
            emits (create_calls n frequency),
            emits (material_calls m d frequency n),
            emits (connect_calls n (masterGain s)),
            for_each (envelope_calls d n velocity now) (automation e (ngain n)),
            emits (start_calls m n now),
            modify (\<lambda>s'. s'\<lparr>activeNotes :=
                               AList.update midiNote (note_record m d n (next_ref s')) (activeNotes s'),
                             next_ref := next_ref s' + 1\<rparr>)]
           s)"

text \<open>All the backend calls of a \<^verbatim>\<open>playNote\<close> that reaches its end, in program order.\<close>

definition voice_calls :: "env \<Rightarrow> piano \<Rightarrow> int \<Rightarrow> real \<Rightarrow> call list" where
  "voice_calls e s midiNote velocity =
     (let n = allocate (next_ref s)
      in create_calls n (frequency_of midiNote)
         @ material_calls (material s) (dimensions s) (frequency_of midiNote) n
         @ connect_calls n (masterGain s)
         @ envelope_calls (dimensions s) n velocity (currentTime e)
         @ start_calls (material s) n (currentTime e))"

text \<open>\<^verbatim>\<open>if (this.activeNotes[midiNote]) { ... }\<close>: a registered voice is an object, so truthy.\<close>

definition when_registered :: "int \<Rightarrow> action \<Rightarrow> action" where
  "when_registered midiNote a s = (if map_of (activeNotes s) midiNote \<noteq> None then a s else (Normal, s))"

definition playNote :: "env \<Rightarrow> int \<Rightarrow> real \<Rightarrow> action" where
  "playNote e midiNote velocity = run
     [when_registered midiNote (forceStopNote e midiNote),
      with_state (\<lambda>s.
        if \<not> isBuilt s then console_log (Warn PianoNotBuilt)
        else run [when_registered midiNote (stopNote e midiNote),
                  start_voice e midiNote velocity])]"

subsection \<open>stopAllNotes, buildPiano, setDimensions, setMaterial\<close>

definition stopAllNotes :: "env \<Rightarrow> bool \<Rightarrow> action" where
  "stopAllNotes e immediate s =
     (if immediate
      then (let noteNumbers = map (parseInt_key e) (object_keys (activeNotes s))
            in for_each noteNumbers (forceStopNote e) s)
      else for_each (object_keys (activeNotes s))
             (\<lambda>midiNote. stopNote e (parseInt_key e midiNote)) s)"

definition volumeFactor :: "real \<Rightarrow> real \<Rightarrow> real \<Rightarrow> real" where
  "volumeFactor len width height = (len * width * height) / (180 * 150 * 40)"

definition soundDescription :: "string \<Rightarrow> dims \<Rightarrow> string" where
  "soundDescription m d =
     (if m = ''wood'' then ''warm, resonant tone with rich overtones''
      else if m = ''metal'' then ''bright, clear tone with extended harmonics''
      else if m = ''glass'' then ''crystalline, pure tone with transparent sound''
      else if m = ''plastic'' then ''balanced, modern tone with consistent response''
      else [])
     @ (if length_cm d > 250 then '', rich bass response''
        else if length_cm d > 200 then '', full bass extension''
        else if length_cm d < 120 then '', clear, articulate attack''
        else [])
     @ (if width_cm d > 200 then '', powerful projection''
        else if width_cm d > 170 then '', balanced resonance''
        else if width_cm d < 120 then '', focused, direct sound''
        else [])
     @ (if height_cm d > 100 then '', extended sustain''
        else if height_cm d > 60 then '', smooth, gradual decay''
        else if height_cm d < 30 then '', quick decay''
        else [])
     @ (if volumeFactor (length_cm d) (width_cm d) (height_cm d) > 1.2
        then '', with rich harmonic overtones'' else [])"

definition buildPiano :: "env \<Rightarrow> action" where
  "buildPiano e = run
     [(if suspended e then emit Resume else skip),
      modify (\<lambda>s. s\<lparr>isBuilt := True\<rparr>),
      with_state (\<lambda>s. console_log (Log (BuildingPiano (dimensions s) (material s)))),
      stopAllNotes e True,
      with_state (\<lambda>s. console_log (Log (PianoBuilt (soundDescription (material s) (dimensions s))))),
      with_state (\<lambda>s.
        if has_showMessage e
        then emit (ShowMessage (''Piano built with '' @ soundDescription (material s) (dimensions s)
                                @ ''. Try playing it!''))
        else skip)]"

text \<open>The saturation stage between the master gain and the destination.\<close>

definition update_distortion :: "real \<Rightarrow> action" where
  "update_distortion vf = with_state (\<lambda>s.
     if vf > 1.2 then
       run [console_log (Log LargeEnoughForEnhancement),
            (case distortion s of
               None \<Rightarrow>
                 (let w = next_ref s
                  in run [modify (\<lambda>t. t\<lparr>distortion := Some w, next_ref := w + 1\<rparr>),
                          emits [CreateWaveShaper w,
                                 SetCurve w (MakeDistortionCurve (material s) (vf * 30)),
                                 SetOversample w ''4x'',
                                 Disconnect (masterGain s),
                                 Connect (masterGain s) w,
                                 ConnectDestination w]])
             | Some w \<Rightarrow> emit (SetCurve w (MakeDistortionCurve (material s) (vf * 30))))]
     else if distortion s \<noteq> None then
       run [emit (Disconnect (masterGain s)),
            modify (\<lambda>t. t\<lparr>distortion := None\<rparr>),
            emit (ConnectDestination (masterGain s))]
     else skip)"

definition setDimensions :: "env \<Rightarrow> real \<Rightarrow> real \<Rightarrow> real \<Rightarrow> action" where
  "setDimensions e len width height = run
     [modify (\<lambda>s. s\<lparr>dimensions := \<lparr>length_cm = len, width_cm = width, height_cm = height\<rparr>\<rparr>),
      console_log (Log (DimensionsUpdated len width height)),
      with_state (\<lambda>s.
        if isBuilt s then
          (let vf = volumeFactor len width height
           in run [stopAllNotes e False,
                   console_log (Log (AdjustingMasterVolume vf)),
                   modify (\<lambda>t. t\<lparr>masterGain_value := min (0.7 * vf) 1.2\<rparr>),
                   with_state (\<lambda>t. emit (SetGain (masterGain t) (min (0.7 * vf) 1.2))),
                   update_distortion vf,
                   buildPiano e])
        else skip)]"

definition setMaterial :: "env \<Rightarrow> string \<Rightarrow> action" where
  "setMaterial e m = run
     [modify (\<lambda>s. s\<lparr>material := m\<rparr>),
      with_state (\<lambda>s. if isBuilt s then buildPiano e else skip)]"

text \<open>The constructor: default parameters, the master gain wired to the destination.\<close>

definition PianoModel :: piano where
  "PianoModel =
     \<lparr>isBuilt = False,
      dimensions = \<lparr>length_cm = 80, width_cm = 280, height_cm = 40\<rparr>,
      material = ''wood'',
      masterGain = 0,
      masterGain_value = 0.7,
      distortion = None,
      activeNotes = [],
      timers = [],
      calls = [CreateGain 0, SetGain 0 0.7, ConnectDestination 0],
      console = [],
      next_ref = 1\<rparr>"

subsection \<open>Runs of the engine\<close>

text \<open>
  The periodic safety check of the main script: every registered pitch of a snapshot of
  the keys is force-stopped.
\<close>

definition safety_sweep :: "env \<Rightarrow> action" where
  "safety_sweep e = with_state (\<lambda>s.
     if length (object_keys (activeNotes s)) > 0
     then run [console_log (Log (SafetyCheckFound (length (object_keys (activeNotes s))))),
               for_each (object_keys (activeNotes s))
                 (\<lambda>midiNote. run [forceStopNote e (parseInt_key e midiNote),
                                   console_log (Warn (SafetyForceStopped midiNote))])]
     else skip)"

datatype event =
    SetDimensions real real real
  | SetMaterial string
  | BuildPiano
  | PlayNote int real
  | StopNote int
  | ForceStopNote int
  | StopAllNotes bool
  | TimerFires nat
  | SafetySweep

fun handle :: "env \<Rightarrow> event \<Rightarrow> action" where
  "handle e (SetDimensions len width height) = setDimensions e len width height"
| "handle e (SetMaterial m) = setMaterial e m"
| "handle e BuildPiano = buildPiano e"
| "handle e (PlayNote midiNote velocity) = playNote e midiNote velocity"
| "handle e (StopNote midiNote) = stopNote e midiNote"
| "handle e (ForceStopNote midiNote) = forceStopNote e midiNote"
| "handle e (StopAllNotes immediate) = stopAllNotes e immediate"
| "handle e (TimerFires i) = fire_timer i"
| "handle e SafetySweep = safety_sweep e"

text \<open>
  One event is handled to completion before the next; an exception that escapes a
  handler leaves the state as it was when raised.
\<close>

fun exec :: "(env \<times> event) list \<Rightarrow> piano \<Rightarrow> piano" where
  "exec [] s = s"
| "exec ((e, ev) # rest) s = exec rest (snd (handle e ev s))"

text \<open>A backend that raises nothing, with the clock at \<open>t\<close>.\<close>

definition quiet :: "real \<Rightarrow> env" where
  "quiet t =
     \<lparr>currentTime = t, param_value = (\<lambda>_. 0), automation_throws = (\<lambda>_. False),
      stop_throws = (\<lambda>_. False), leading_digit = (\<lambda>_. 1), suspended = False,
      has_showMessage = False\<rparr>"

text \<open>
  The backend calls of \<^verbatim>\<open>stopNote\<close> and \<^verbatim>\<open>forceStopNote\<close> on a voice when no call
  raises: the fades of the gains, then the stops of the oscillators.
\<close>

definition teardown_calls :: "env \<Rightarrow> voice \<Rightarrow> real \<Rightarrow> real \<Rightarrow> call list" where
  "teardown_calls e note endTime stopTime =
     fade_calls e (noteGain note) endTime
     @ fade_calls e (harmonicGain note) endTime
     @ fade_calls e (effectGain note) endTime
     @ (case experimentalGain note of None \<Rightarrow> [] | Some g \<Rightarrow> fade_calls e g endTime)
     @ [Stop (oscillator note) stopTime, Stop (oscillator2 note) stopTime,
        Stop (oscillator3 note) stopTime]
     @ (case oscillator4 note of None \<Rightarrow> [] | Some o4 \<Rightarrow> [Stop o4 stopTime])"




subsection \<open>A run: a key released and struck again\<close>

text \<open>
  The instrument is built with the default parameters; pitch 60 is struck at 1 s, released
  at 2 s and struck again at 2.2 s, with a backend that raises nothing. \<open>voice_A\<close> is the
  voice of the first stroke, \<open>voice_B\<close> that of the second.
\<close>

definition built :: piano where
  "built = exec [(quiet 0, BuildPiano)] PianoModel"

definition played :: piano where
  "played = exec [(quiet 1, PlayNote 60 0.7)] built"

definition released :: piano where
  "released = exec [(quiet 2, StopNote 60)] played"

definition replayed :: piano where
  "replayed = exec [(quiet 2.2, PlayNote 60 0.7)] released"

definition voice_A :: voice where
  "voice_A = note_record ''wood'' (dimensions PianoModel) (allocate 1) 10"

definition voice_B :: voice where
  "voice_B = note_record ''wood'' (dimensions PianoModel) (allocate 11) 20"

text \<open>
  The run goes on: the primary cleanup timer of the release fires at 2.48 s, and pitch 60 is
  struck a third time at 3 s. \<open>voice_C\<close> below is the voice of that stroke.
\<close>

definition orphaned :: piano where
  "orphaned = exec [(quiet 2.48, TimerFires 0)] replayed"

definition restruck :: piano where
  "restruck = exec [(quiet 3, PlayNote 60 0.7)] orphaned"


definition voice_C :: voice where
  "voice_C = note_record ''wood'' (dimensions PianoModel) (allocate 21) 30"


text \<open>The same instrument in plastic.\<close>

definition plastic_piano :: piano where
  "plastic_piano = exec [(quiet 0, SetMaterial ''plastic''), (quiet 0, BuildPiano)] PianoModel"

text \<open>Kinds of backend calls.\<close>

fun is_teardown :: "call \<Rightarrow> bool" where
  "is_teardown (CancelScheduledValues g t) = True"
| "is_teardown (SetValueAtTime g x t) = True"
| "is_teardown (LinearRampToValueAtTime g x t) = True"
| "is_teardown (Stop r t) = True"
| "is_teardown c = False"

fun is_stop :: "call \<Rightarrow> bool" where
  "is_stop (Stop r t) = True"
| "is_stop c = False"

fun is_start :: "call \<Rightarrow> bool" where
  "is_start (Start r t) = True"
| "is_start c = False"

fun sets_frequency :: "ref \<Rightarrow> call \<Rightarrow> bool" where
  "sets_frequency r (SetFrequency r' f) = (r' = r)"
| "sets_frequency r c = False"

text \<open>
  The registry holds one entry per pitch at most, and holds none before the first build.
\<close>

definition registry_ok :: "piano \<Rightarrow> bool" where
  "registry_ok s \<longleftrightarrow> distinct (map fst (activeNotes s)) \<and> (isBuilt s \<or> activeNotes s = [])"

subsection \<open>Reasoning about statements\<close>

text \<open>
  \<open>keeps f a\<close>: statement \<open>a\<close> leaves the observation \<open>f\<close> of the state as it was;
  \<open>never_throws a\<close>: \<open>a\<close> completes normally from every state;
  \<open>appends ok a\<close>: \<open>a\<close> only adds backend calls, each of them satisfying \<open>ok\<close>;
  \<open>pres P a\<close>: \<open>a\<close> preserves the property \<open>P\<close> of the state, raising or not.
\<close>

definition keeps :: "(piano \<Rightarrow> 'a) \<Rightarrow> action \<Rightarrow> bool" where
  "keeps f a \<longleftrightarrow> (\<forall>s. f (snd (a s)) = f s)"

definition never_throws :: "action \<Rightarrow> bool" where
  "never_throws a \<longleftrightarrow> (\<forall>s. fst (a s) = Normal)"

definition appends :: "(call \<Rightarrow> bool) \<Rightarrow> action \<Rightarrow> bool" where
  "appends ok a \<longleftrightarrow> (\<forall>s. \<exists>cs. calls (snd (a s)) = calls s @ cs \<and> list_all ok cs)"

definition pres :: "(piano \<Rightarrow> bool) \<Rightarrow> action \<Rightarrow> bool" where
  "pres P a \<longleftrightarrow> (\<forall>s. P s \<longrightarrow> P (snd (a s)))"

section \<open>Properties\<close>

subsection \<open>Rules for the statement combinators\<close>

lemma keepsD: "keeps f a \<Longrightarrow> f (snd (a s)) = f s"
  by (simp add: keeps_def)

lemma never_throwsD: "never_throws a \<Longrightarrow> fst (a s) = Normal"
  by (simp add: never_throws_def)

lemma snd_and_then:
  "snd (and_then a b s) = (if fst (a s) = Normal then snd (b (snd (a s))) else snd (a s))"
  by (cases "a s"; cases "fst (a s)") (auto simp: and_then_def)

lemma fst_and_then:
  "fst (and_then a b s) = (if fst (a s) = Normal then fst (b (snd (a s))) else fst (a s))"
  by (cases "a s"; cases "fst (a s)") (auto simp: and_then_def)

lemma snd_try_catch:
  "snd (try_catch b h s) = (case fst (b s) of Normal \<Rightarrow> snd (b s) | Throw err \<Rightarrow> snd (h err (snd (b s))))"
  by (cases "b s"; cases "fst (b s)") (auto simp: try_catch_def)

lemma fst_try_catch:
  "fst (try_catch b h s) = (case fst (b s) of Normal \<Rightarrow> Normal | Throw err \<Rightarrow> fst (h err (snd (b s))))"
  by (cases "b s"; cases "fst (b s)") (auto simp: try_catch_def)

lemma snd_try_finally: "snd (try_finally b fin s) = snd (fin (snd (b s)))"
  by (cases "b s"; cases "fin (snd (b s))"; cases "fst (fin (snd (b s)))") (auto simp: try_finally_def)

lemma fst_try_finally:
  "fst (try_finally b fin s) = (if fst (fin (snd (b s))) = Normal then fst (b s) else fst (fin (snd (b s))))"
  by (cases "b s"; cases "fin (snd (b s))"; cases "fst (fin (snd (b s)))") (auto simp: try_finally_def)

lemma keeps_skip: "keeps f skip"
  by (simp add: keeps_def skip_def)

lemma keeps_and_then: "keeps f a \<Longrightarrow> keeps f b \<Longrightarrow> keeps f (and_then a b)"
  by (simp add: keeps_def snd_and_then)

lemma keeps_run: "(\<And>a. a \<in> set as \<Longrightarrow> keeps f a) \<Longrightarrow> keeps f (run as)"
  by (induction as) (simp_all add: keeps_skip keeps_and_then)

lemma keeps_try_catch: "keeps f b \<Longrightarrow> (\<And>err. keeps f (h err)) \<Longrightarrow> keeps f (try_catch b h)"
  by (simp add: keeps_def snd_try_catch split: completion.split)

lemma keeps_try_finally: "keeps f b \<Longrightarrow> keeps f fin \<Longrightarrow> keeps f (try_finally b fin)"
  by (simp add: keeps_def snd_try_finally)

lemma keeps_for_each: "(\<And>x. x \<in> set xs \<Longrightarrow> keeps f (g x)) \<Longrightarrow> keeps f (for_each xs g)"
  unfolding for_each_def by (rule keeps_run) auto

lemma keeps_modify: "(\<And>s. f (g s) = f s) \<Longrightarrow> keeps f (modify g)"
  by (simp add: keeps_def modify_def)

lemma never_throws_skip: "never_throws skip"
  by (simp add: never_throws_def skip_def)

lemma never_throws_modify: "never_throws (modify g)"
  by (simp add: never_throws_def modify_def)

lemma never_throws_and_then: "never_throws a \<Longrightarrow> never_throws b \<Longrightarrow> never_throws (and_then a b)"
  by (simp add: never_throws_def fst_and_then)

lemma never_throws_run: "(\<And>a. a \<in> set as \<Longrightarrow> never_throws a) \<Longrightarrow> never_throws (run as)"
  by (induction as) (simp_all add: never_throws_skip never_throws_and_then)

lemma never_throws_for_each:
  "(\<And>x. x \<in> set xs \<Longrightarrow> never_throws (g x)) \<Longrightarrow> never_throws (for_each xs g)"
  unfolding for_each_def by (rule never_throws_run) auto

lemma never_throws_try_catch: "(\<And>err. never_throws (h err)) \<Longrightarrow> never_throws (try_catch b h)"
  by (simp add: never_throws_def fst_try_catch split: completion.split)

lemma never_throws_try_finally:
  "never_throws b \<Longrightarrow> never_throws fin \<Longrightarrow> never_throws (try_finally b fin)"
  by (simp add: never_throws_def fst_try_finally)

lemma appends_skip: "appends ok skip"
  by (simp add: appends_def skip_def)

lemma appends_and_then: "appends ok a \<Longrightarrow> appends ok b \<Longrightarrow> appends ok (and_then a b)"
  unfolding appends_def snd_and_then
proof (intro allI)
  fix s
  assume a: "\<forall>s. \<exists>cs. calls (snd (a s)) = calls s @ cs \<and> list_all ok cs"
    and b: "\<forall>s. \<exists>cs. calls (snd (b s)) = calls s @ cs \<and> list_all ok cs"
  from a obtain cs where cs: "calls (snd (a s)) = calls s @ cs" "list_all ok cs" by blast
  from b obtain ds where ds: "calls (snd (b (snd (a s)))) = calls (snd (a s)) @ ds" "list_all ok ds"
    by blast
  show "\<exists>cs. calls (if fst (a s) = Normal then snd (b (snd (a s))) else snd (a s)) = calls s @ cs
          \<and> list_all ok cs"
  proof (cases "fst (a s) = Normal")
    case True
    with cs ds have "calls (snd (b (snd (a s)))) = calls s @ (cs @ ds)" "list_all ok (cs @ ds)"
      by simp_all
    with True show ?thesis by (metis (full_types))
  next
    case False
    with cs show ?thesis by auto
  qed
qed

lemma appends_run: "(\<And>a. a \<in> set as \<Longrightarrow> appends ok a) \<Longrightarrow> appends ok (run as)"
  by (induction as) (simp_all add: appends_skip appends_and_then)

lemma appends_for_each: "(\<And>x. x \<in> set xs \<Longrightarrow> appends ok (g x)) \<Longrightarrow> appends ok (for_each xs g)"
  unfolding for_each_def by (rule appends_run) auto

lemma appends_try_catch:
  assumes "appends ok b" and "\<And>err. appends ok (h err)"
  shows "appends ok (try_catch b h)"
  unfolding appends_def
proof
  fix s
  from assms(1) obtain cs where cs: "calls (snd (b s)) = calls s @ cs" "list_all ok cs"
    unfolding appends_def by blast
  show "\<exists>cs. calls (snd (try_catch b h s)) = calls s @ cs \<and> list_all ok cs"
  proof (cases "fst (b s)")
    case Normal
    with cs show ?thesis by (auto simp: snd_try_catch)
  next
    case (Throw err)
    from assms(2) [of err] obtain ds
      where ds: "calls (snd (h err (snd (b s)))) = calls (snd (b s)) @ ds" "list_all ok ds"
      unfolding appends_def by blast
    with cs have "calls (snd (h err (snd (b s)))) = calls s @ (cs @ ds)" "list_all ok (cs @ ds)"
      by simp_all
    with Throw show ?thesis unfolding snd_try_catch by (metis (full_types) completion.simps(5))
  qed
qed

lemma appends_try_finally:
  assumes "appends ok b" and "appends ok fin"
  shows "appends ok (try_finally b fin)"
  unfolding appends_def
proof
  fix s
  from assms(1) obtain cs where cs: "calls (snd (b s)) = calls s @ cs" "list_all ok cs"
    unfolding appends_def by blast
  from assms(2) obtain ds
    where ds: "calls (snd (fin (snd (b s)))) = calls (snd (b s)) @ ds" "list_all ok ds"
    unfolding appends_def by blast
  from cs ds have "calls (snd (fin (snd (b s)))) = calls s @ (cs @ ds)" "list_all ok (cs @ ds)"
    by simp_all
  then show "\<exists>cs. calls (snd (try_finally b fin s)) = calls s @ cs \<and> list_all ok cs"
    unfolding snd_try_finally by blast
qed

lemma appends_modify: "(\<And>s. calls (g s) = calls s) \<Longrightarrow> appends ok (modify g)"
  by (simp add: appends_def modify_def)

lemma appends_emits: "list_all ok cs \<Longrightarrow> appends ok (emits cs)"
  by (simp add: appends_def emits_def modify_def)

subsection \<open>What the teardown statements leave alone\<close>

lemma keeps_run_Nil: "keeps f (run [])"
  by (simp add: keeps_skip)

lemma keeps_run_Cons: "keeps f a \<Longrightarrow> keeps f (run as) \<Longrightarrow> keeps f (run (a # as))"
  by (simp add: keeps_and_then)

lemma keeps_emits: "(\<And>s x. f (s\<lparr>calls := x\<rparr>) = f s) \<Longrightarrow> keeps f (emits cs)"
  by (simp add: emits_def keeps_modify)

lemma keeps_emit: "(\<And>s x. f (s\<lparr>calls := x\<rparr>) = f s) \<Longrightarrow> keeps f (emit c)"
  by (simp add: emit_def keeps_emits)

lemma keeps_console_log: "(\<And>s x. f (s\<lparr>console := x\<rparr>) = f s) \<Longrightarrow> keeps f (console_log entry)"
  by (simp add: console_log_def keeps_modify)

lemma keeps_set_timeout: "(\<And>s x. f (s\<lparr>timers := x\<rparr>) = f s) \<Longrightarrow> keeps f (set_timeout cb ms)"
  by (simp add: set_timeout_def keeps_modify)

lemma keeps_automation: "(\<And>s x. f (s\<lparr>calls := x\<rparr>) = f s) \<Longrightarrow> keeps f (automation e g c)"
  by (simp add: keeps_def automation_def emit_def emits_def modify_def)

lemma keeps_stop_osc: "(\<And>s x. f (s\<lparr>calls := x\<rparr>) = f s) \<Longrightarrow> keeps f (stop_osc e g t)"
  by (simp add: keeps_def stop_osc_def emit_def emits_def modify_def)

lemma keeps_fade: "(\<And>s x. f (s\<lparr>calls := x\<rparr>) = f s) \<Longrightarrow> keeps f (fade e g t)"
  unfolding fade_def by (intro keeps_for_each keeps_automation)

lemma keeps_fade_opt: "(\<And>s x. f (s\<lparr>calls := x\<rparr>) = f s) \<Longrightarrow> keeps f (fade_opt e g t)"
  by (cases g) (simp_all add: fade_opt_def keeps_skip keeps_fade)

lemma keeps_stop_osc_opt: "(\<And>s x. f (s\<lparr>calls := x\<rparr>) = f s) \<Longrightarrow> keeps f (stop_osc_opt e g t)"
  by (cases g) (simp_all add: stop_osc_opt_def keeps_skip keeps_stop_osc)

lemma keeps_stop_oscillators:
  "(\<And>s x. f (s\<lparr>calls := x\<rparr>) = f s) \<Longrightarrow> keeps f (stop_oscillators e v t)"
  unfolding stop_oscillators_def
  by (intro keeps_run_Cons keeps_run_Nil keeps_stop_osc keeps_stop_osc_opt)

lemma keeps_force_stop_voice:
  assumes "\<And>s x. f (s\<lparr>calls := x\<rparr>) = f s"
    and "\<And>s x. f (s\<lparr>console := x\<rparr>) = f s"
    and "\<And>s x. f (s\<lparr>activeNotes := x\<rparr>) = f s"
  shows "keeps f (force_stop_voice e p note)"
  unfolding force_stop_voice_def Let_def
  by (intro keeps_try_finally keeps_try_catch keeps_run_Cons keeps_run_Nil keeps_fade
        keeps_fade_opt keeps_stop_oscillators keeps_console_log keeps_modify assms)

lemma keeps_forceStopNote:
  assumes "\<And>s x. f (s\<lparr>calls := x\<rparr>) = f s"
    and "\<And>s x. f (s\<lparr>console := x\<rparr>) = f s"
    and "\<And>s x. f (s\<lparr>activeNotes := x\<rparr>) = f s"
  shows "keeps f (forceStopNote e p)"
  unfolding keeps_def forceStopNote_def
  by (simp add: keepsD [OF keeps_force_stop_voice [of f, OF assms]] split: option.split)

lemma keeps_release_voice:
  assumes "\<And>s x. f (s\<lparr>calls := x\<rparr>) = f s"
    and "\<And>s x. f (s\<lparr>console := x\<rparr>) = f s"
    and "\<And>s x. f (s\<lparr>timers := x\<rparr>) = f s"
  shows "keeps f (release_voice e p note)"
  unfolding release_voice_def Let_def
  by (intro keeps_try_catch keeps_run_Cons keeps_run_Nil keeps_fade
        keeps_fade_opt keeps_stop_oscillators keeps_console_log keeps_set_timeout assms)

lemma keeps_stopNote:
  assumes "\<And>s x. f (s\<lparr>calls := x\<rparr>) = f s"
    and "\<And>s x. f (s\<lparr>console := x\<rparr>) = f s"
    and "\<And>s x. f (s\<lparr>timers := x\<rparr>) = f s"
  shows "keeps f (stopNote e p)"
  unfolding keeps_def stopNote_def
  by (simp add: keepsD [OF keeps_release_voice [of f, OF assms]] split: option.split)

text \<open>forceStopNote never raises and deletes the key.\<close>

lemma never_throws_console_log: "never_throws (console_log entry)"
  by (simp add: console_log_def never_throws_modify)

lemma never_throws_force_stop_voice: "never_throws (force_stop_voice e p note)"
  unfolding force_stop_voice_def Let_def
  by (intro never_throws_try_finally never_throws_try_catch never_throws_console_log
        never_throws_run) (auto simp: never_throws_modify never_throws_console_log)

lemma never_throws_forceStopNote: "never_throws (forceStopNote e p)"
  unfolding never_throws_def forceStopNote_def
  by (simp add: never_throwsD [OF never_throws_force_stop_voice] split: option.split)

lemma activeNotes_force_stop_voice:
  "activeNotes (snd (force_stop_voice e p note s)) = AList.delete p (activeNotes s)"
proof -
  let ?body = "try_catch
              (run
                 [fade e (noteGain note) (currentTime e + 0.005),
                  fade e (harmonicGain note) (currentTime e + 0.005),
                  fade e (effectGain note) (currentTime e + 0.005),
                  fade_opt e (experimentalGain note) (currentTime e + 0.005),
                  try_catch (stop_oscillators e note (currentTime e + 0.01))
                    (\<lambda>err. console_log (Warn (ErrorStoppingOscillators err)))])
              (\<lambda>err. console_log (Error (ErrorInForceStopNote err)))"
  have "keeps activeNotes ?body"
    by (intro keeps_try_catch keeps_run_Cons keeps_run_Nil keeps_fade
        keeps_fade_opt keeps_stop_oscillators keeps_console_log) simp_all
  then have "activeNotes (snd (?body s)) = activeNotes s"
    by (rule keepsD)
  then show ?thesis
    by (simp add: force_stop_voice_def Let_def snd_try_finally and_then_def modify_def
        console_log_def skip_def)
qed

lemma activeNotes_forceStopNote:
  "activeNotes (snd (forceStopNote e p s)) = AList.delete p (activeNotes s)"
proof (cases "map_of (activeNotes s) p")
  case None
  then have "p \<notin> fst ` set (activeNotes s)"
    by (simp add: map_of_eq_None_iff)
  with None show ?thesis by (simp add: forceStopNote_def)
next
  case (Some v)
  then show ?thesis by (simp add: forceStopNote_def activeNotes_force_stop_voice)
qed

subsection \<open>forceStopNote is a cleanup primitive\<close>

text \<open>
  Claim C2. For every pitch, every state and every behaviour of the backend (in particular
  when stopping the oscillators or fading the gains raises), \<^verbatim>\<open>forceStopNote\<close> completes
  normally and leaves no registry entry for the pitch; calling it again changes nothing;
  and on a pitch without a registered voice both \<^verbatim>\<open>forceStopNote\<close> and \<^verbatim>\<open>stopNote\<close>
  return at once, with the state unchanged.
\<close>

theorem forceStopNote_always_removes:
  "fst (forceStopNote e p s) = Normal
   \<and> map_of (activeNotes (snd (forceStopNote e p s))) p = None
   \<and> forceStopNote e' p (snd (forceStopNote e p s)) = (Normal, snd (forceStopNote e p s))
   \<and> (map_of (activeNotes s) p = None \<longrightarrow>
        forceStopNote e p s = (Normal, s) \<and> stopNote e p s = (Normal, s))"
proof -
  have gone: "map_of (activeNotes (snd (forceStopNote e p s))) p = None"
    by (simp add: activeNotes_forceStopNote delete_conv')
  have "fst (forceStopNote e p s) = Normal"
    by (rule never_throwsD [OF never_throws_forceStopNote])
  moreover have "forceStopNote e' p (snd (forceStopNote e p s)) = (Normal, snd (forceStopNote e p s))"
    using gone by (simp add: forceStopNote_def)
  moreover have "map_of (activeNotes s) p = None \<longrightarrow>
        forceStopNote e p s = (Normal, s) \<and> stopNote e p s = (Normal, s)"
    by (simp add: forceStopNote_def stopNote_def)
  ultimately show ?thesis using gone by blast
qed

subsection \<open>stopAllNotes\<close>

lemma never_throws_automation: "\<not> automation_throws e g \<Longrightarrow> never_throws (automation e g c)"
  by (simp add: never_throws_def automation_def emit_def emits_def modify_def)

lemma never_throws_fade: "\<not> automation_throws e g \<Longrightarrow> never_throws (fade e g t)"
  unfolding fade_def by (rule never_throws_for_each) (simp add: never_throws_automation)

lemma never_throws_fade_opt: "(\<And>g. \<not> automation_throws e g) \<Longrightarrow> never_throws (fade_opt e g t)"
  by (cases g) (simp_all add: fade_opt_def never_throws_skip never_throws_fade)

lemma never_throws_release_voice:
  assumes "\<And>g. \<not> automation_throws e g"
  shows "never_throws (release_voice e p v)"
  unfolding release_voice_def Let_def
  by (rule never_throws_run)
     (auto simp: assms never_throws_fade never_throws_fade_opt set_timeout_def never_throws_modify
        intro!: never_throws_try_catch never_throws_console_log)

lemma never_throws_stopNote:
  assumes "\<And>g. \<not> automation_throws e g"
  shows "never_throws (stopNote e p)"
  unfolding never_throws_def stopNote_def
  by (simp add: never_throwsD [OF never_throws_release_voice [of e, OF assms]] split: option.split)









lemma never_throws_stopAllNotes_immediate: "never_throws (stopAllNotes e True)"
  unfolding never_throws_def stopAllNotes_def
  by (simp add: never_throwsD [OF never_throws_for_each] never_throws_forceStopNote)

lemma keeps_stopAllNotes:
  assumes "\<And>s x. f (s\<lparr>calls := x\<rparr>) = f s"
    and "\<And>s x. f (s\<lparr>console := x\<rparr>) = f s"
    and "\<And>s x. f (s\<lparr>activeNotes := x\<rparr>) = f s"
    and "\<And>s x. f (s\<lparr>timers := x\<rparr>) = f s"
  shows "keeps f (stopAllNotes e immediate)"
  unfolding keeps_def stopAllNotes_def
  by (simp add: keepsD [OF keeps_for_each] keeps_forceStopNote keeps_stopNote assms)

lemma activeNotes_stopAllNotes_release: "activeNotes (snd (stopAllNotes e False s)) = activeNotes s"
  unfolding stopAllNotes_def
  by (simp add: keepsD [OF keeps_for_each] keeps_stopNote)

lemma never_throws_stopAllNotes_release:
  assumes "\<And>g. \<not> automation_throws e g"
  shows "never_throws (stopAllNotes e False)"
  unfolding never_throws_def stopAllNotes_def
  by (simp add: never_throwsD [OF never_throws_for_each] never_throws_stopNote assms)





subsection \<open>Running statements step by step\<close>

lemma skip_apply [simp]: "skip s = (Normal, s)"
  by (simp add: skip_def)

lemma and_then_modify [simp]: "and_then (modify f) b s = b (f s)"
  by (simp add: and_then_def modify_def)

lemma and_then_emits [simp]: "and_then (emits cs) b s = b (s\<lparr>calls := calls s @ cs\<rparr>)"
  by (simp add: emits_def)

lemma and_then_emit [simp]: "and_then (emit c) b s = b (s\<lparr>calls := calls s @ [c]\<rparr>)"
  by (simp add: emit_def)

lemma and_then_console_log [simp]:
  "and_then (console_log en) b s = b (s\<lparr>console := console s @ [en]\<rparr>)"
  by (simp add: console_log_def)

lemma and_then_set_timeout [simp]:
  "and_then (set_timeout cb ms) b s = b (s\<lparr>timers := timers s @ [\<lparr>delay_ms = ms, callback = cb\<rparr>]\<rparr>)"
  by (simp add: set_timeout_def)

lemma and_then_Normal: "a s = (Normal, s') \<Longrightarrow> and_then a b s = b s'"
  by (simp add: and_then_def)

lemma and_then_Throw: "a s = (Throw err, s') \<Longrightarrow> and_then a b s = (Throw err, s')"
  by (simp add: and_then_def)

lemma and_then_skip [simp]: "and_then skip b s = b s"
  by (simp add: and_then_def)

lemma and_then_skip_right: "and_then a skip s = a s"
  by (cases "a s"; cases "fst (a s)") (auto simp: and_then_def)

lemma and_then_assoc: "and_then (and_then a b) c s = and_then a (and_then b c) s"
  by (cases "a s"; cases "fst (a s)") (auto simp: and_then_def)

lemma for_each_Nil [simp]: "for_each [] f = skip"
  by (simp add: for_each_def)

lemma for_each_Cons: "for_each (x # xs) f = and_then (f x) (for_each xs f)"
  by (simp add: for_each_def)

lemma and_then_automation:
  "and_then (automation e g c) b s =
     (if automation_throws e g then (Throw (BackendError g), s)
      else b (s\<lparr>calls := calls s @ [c]\<rparr>))"
  by (simp add: and_then_def automation_def emit_def emits_def modify_def)

lemma and_then_for_each_automation_ok:
  "\<not> automation_throws e g \<Longrightarrow>
   and_then (for_each cs (automation e g)) b s = b (s\<lparr>calls := calls s @ cs\<rparr>)"
proof (induction cs arbitrary: s)
  case Nil
  then show ?case by (simp add: and_then_def)
next
  case (Cons c cs)
  have "and_then (for_each (c # cs) (automation e g)) b s
      = and_then (automation e g c) (and_then (for_each cs (automation e g)) b) s"
    by (simp only: for_each_Cons and_then_assoc)
  also have "\<dots> = and_then (for_each cs (automation e g)) b (s\<lparr>calls := calls s @ [c]\<rparr>)"
    using Cons.prems by (simp only: and_then_automation if_False)
  also have "\<dots> = b (s\<lparr>calls := calls s @ c # cs\<rparr>)"
    by (simp add: Cons.IH [OF Cons.prems])
  finally show ?case .
qed

lemma and_then_for_each_automation_throws:
  "and_then (for_each cs (automation e g)) b s = (Throw (BackendError g), s)"
  if "automation_throws e g" and "cs \<noteq> []"
proof (cases cs)
  case Nil
  then show ?thesis using that by simp
next
  case (Cons c cs')
  have "and_then (for_each (c # cs') (automation e g)) b s
      = and_then (automation e g c) (and_then (for_each cs' (automation e g)) b) s"
    by (simp only: for_each_Cons and_then_assoc)
  also have "\<dots> = (Throw (BackendError g), s)"
    using that by (simp only: and_then_automation if_True)
  finally show ?thesis using Cons by simp
qed

subsection \<open>playNote\<close>

lemma start_voice_ok:
  assumes "\<not> automation_throws e (Suc (next_ref s))"
  shows "start_voice e p v s =
    (Normal, s\<lparr>calls := calls s @ voice_calls e s p v,
                activeNotes := AList.update p
                  (note_record (material s) (dimensions s) (allocate (next_ref s)) (next_ref s + 9))
                  (activeNotes s),
                next_ref := next_ref s + 10\<rparr>)"
proof -
  have g: "ngain (allocate (next_ref s)) = Suc (next_ref s)" by (simp add: allocate_def)
  show ?thesis
    unfolding start_voice_def Let_def
    by (simp add: g and_then_for_each_automation_ok [OF assms] voice_calls_def Let_def)
qed

lemma start_voice_throws:
  assumes "automation_throws e (Suc (next_ref s))"
  shows "start_voice e p v s =
    (Throw (BackendError (Suc (next_ref s))),
     s\<lparr>calls := calls s @ create_calls (allocate (next_ref s)) (frequency_of p)
            @ material_calls (material s) (dimensions s) (frequency_of p) (allocate (next_ref s))
            @ connect_calls (allocate (next_ref s)) (masterGain s),
        next_ref := next_ref s + 9\<rparr>)"
proof -
  have g: "ngain (allocate (next_ref s)) = Suc (next_ref s)" by (simp add: allocate_def)
  show ?thesis
    unfolding start_voice_def Let_def
    by (simp add: g and_then_for_each_automation_throws [OF assms] envelope_calls_def)
qed

lemma with_state_apply: "with_state f s = f s s"
  by (simp add: with_state_def)

lemma and_then_with_state [simp]: "and_then (with_state f) b s = and_then (f s) b s"
  by (simp add: and_then_def with_state_def)

lemma and_then_if:
  "and_then (if c then a else a') b s = (if c then and_then a b s else and_then a' b s)"
  by simp

lemma playNote_eq:
  "playNote e p v s =
     (if isBuilt s then start_voice e p v (snd (forceStopNote e p s))
      else (Normal, (snd (forceStopNote e p s))\<lparr>console := console (snd (forceStopNote e p s)) @ [Warn PianoNotBuilt]\<rparr>))"
proof -
  let ?s1 = "snd (forceStopNote e p s)"
  have first: "when_registered p (forceStopNote e p) s = (Normal, ?s1)"
  proof (cases "map_of (activeNotes s) p")
    case None
    then show ?thesis by (simp add: when_registered_def forceStopNote_def)
  next
    case (Some v)
    have "fst (forceStopNote e p s) = Normal"
      by (rule never_throwsD [OF never_throws_forceStopNote])
    then have "forceStopNote e p s = (Normal, ?s1)"
      by (metis prod.collapse)
    with Some show ?thesis by (simp add: when_registered_def)
  qed
  have built: "isBuilt ?s1 = isBuilt s"
    by (rule keepsD [OF keeps_forceStopNote]) simp_all
  have "map_of (activeNotes ?s1) p = None"
    by (simp add: activeNotes_forceStopNote delete_conv')
  then have second: "when_registered p (stopNote e p) ?s1 = (Normal, ?s1)"
    by (simp add: when_registered_def)
  have "playNote e p v s =
     and_then (with_state (\<lambda>s.
        if \<not> isBuilt s then console_log (Warn PianoNotBuilt)
        else run [when_registered p (stopNote e p), start_voice e p v])) skip ?s1"
    unfolding playNote_def run.simps
    by (rule and_then_Normal [where a = "when_registered p (forceStopNote e p)" and s = s, OF first])
  also have "\<dots> =
     (if isBuilt s then start_voice e p v ?s1
      else (Normal, ?s1\<lparr>console := console ?s1 @ [Warn PianoNotBuilt]\<rparr>))"
  proof (cases "isBuilt s")
    case True
    have "and_then (and_then (when_registered p (stopNote e p)) (and_then (start_voice e p v) skip)) skip ?s1
        = and_then (when_registered p (stopNote e p)) (and_then (start_voice e p v) skip) ?s1"
      by (rule and_then_skip_right)
    also have "\<dots> = and_then (start_voice e p v) skip ?s1"
      by (rule and_then_Normal [where a = "when_registered p (stopNote e p)" and s = "?s1", OF second])
    also have "\<dots> = start_voice e p v ?s1"
      by (rule and_then_skip_right)
    finally have "and_then (and_then (when_registered p (stopNote e p)) (and_then (start_voice e p v) skip)) skip ?s1
        = start_voice e p v ?s1" .
    with True show ?thesis by (simp add: built)
  next
    case False
    then show ?thesis by (simp add: built)
  qed
  finally show ?thesis .
qed

subsection \<open>Teardown with a backend that raises nothing\<close>

lemma and_then_stop_osc:
  "and_then (stop_osc e r t) b s =
     (if stop_throws e r then (Throw (BackendError r), s)
      else b (s\<lparr>calls := calls s @ [Stop r t]\<rparr>))"
  by (simp add: and_then_def stop_osc_def emit_def emits_def modify_def)

lemma and_then_fade_ok:
  "\<not> automation_throws e g \<Longrightarrow>
   and_then (fade e g t) b s = b (s\<lparr>calls := calls s @ fade_calls e g t\<rparr>)"
  by (simp add: fade_def and_then_for_each_automation_ok)

lemma and_then_fade_opt_ok:
  "(\<And>g. \<not> automation_throws e g) \<Longrightarrow>
   and_then (fade_opt e g t) b s
   = b (s\<lparr>calls := calls s @ (case g of None \<Rightarrow> [] | Some g' \<Rightarrow> fade_calls e g' t)\<rparr>)"
  by (cases g) (simp_all add: fade_opt_def and_then_fade_ok)

lemma stop_oscillators_ok:
  assumes "\<And>r. \<not> stop_throws e r"
  shows "stop_oscillators e v t s =
     (Normal, s\<lparr>calls := calls s @ [Stop (oscillator v) t, Stop (oscillator2 v) t, Stop (oscillator3 v) t]
                    @ (case oscillator4 v of None \<Rightarrow> [] | Some o4 \<Rightarrow> [Stop o4 t])\<rparr>)"
  by (cases "oscillator4 v")
     (simp_all add: stop_oscillators_def and_then_stop_osc assms stop_osc_opt_def
        stop_osc_def emit_def emits_def modify_def)

lemma try_catch_Normal: "b s = (Normal, s') \<Longrightarrow> try_catch b h s = (Normal, s')"
  by (simp add: try_catch_def)

lemma try_catch_Throw: "b s = (Throw err, s') \<Longrightarrow> try_catch b h s = h err s'"
  by (simp add: try_catch_def)

lemma release_voice_quiet:
  assumes "\<And>g. \<not> automation_throws e g" and "\<And>r. \<not> stop_throws e r"
  shows "release_voice e p v s =
     (Normal, s\<lparr>calls := calls s
                    @ teardown_calls e v (currentTime e + releaseTime v) (currentTime e + releaseTime v + 0.15),
                timers := timers s
                    @ [\<lparr>delay_ms = cleanupTime v, callback = Primary p\<rparr>,
                       \<lparr>delay_ms = cleanupTime v + 1000, callback = Backup p v\<rparr>,
                       \<lparr>delay_ms = 5000, callback = Emergency p v\<rparr>]\<rparr>)"
  unfolding release_voice_def Let_def
  by (simp add: and_then_fade_ok and_then_fade_opt_ok assms teardown_calls_def
      and_then_Normal [OF try_catch_Normal [OF stop_oscillators_ok]])


lemma force_stop_voice_quiet:
  assumes "\<And>g. \<not> automation_throws e g" and "\<And>r. \<not> stop_throws e r"
  shows "force_stop_voice e p v s =
     (Normal, s\<lparr>calls := calls s @ teardown_calls e v (currentTime e + 0.005) (currentTime e + 0.01),
                activeNotes := AList.delete p (activeNotes s),
                console := console s @ [Log (ForceStopped p)]\<rparr>)"
proof -
  let ?body = "run
                 [fade e (noteGain v) (currentTime e + 0.005),
                  fade e (harmonicGain v) (currentTime e + 0.005),
                  fade e (effectGain v) (currentTime e + 0.005),
                  fade_opt e (experimentalGain v) (currentTime e + 0.005),
                  try_catch (stop_oscillators e v (currentTime e + 0.01))
                    (\<lambda>err. console_log (Warn (ErrorStoppingOscillators err)))]"
  have "?body s = (Normal, s\<lparr>calls := calls s
           @ teardown_calls e v (currentTime e + 0.005) (currentTime e + 0.01)\<rparr>)"
    by (simp add: and_then_fade_ok and_then_fade_opt_ok assms teardown_calls_def
      and_then_Normal [OF try_catch_Normal [OF stop_oscillators_ok]])
  then show ?thesis
    unfolding force_stop_voice_def Let_def
    by (simp add: try_finally_def try_catch_Normal)
qed


subsection \<open>Evaluating the run\<close>

lemma stopAllNotes_empty: "activeNotes s = [] \<Longrightarrow> stopAllNotes e b s = (Normal, s)"
  by (simp add: stopAllNotes_def object_keys_def)

lemma and_then_stopAllNotes_empty:
  "activeNotes s = [] \<Longrightarrow> and_then (stopAllNotes e b) k s = k s"
  by (simp add: and_then_def stopAllNotes_empty)

lemma forceStopNote_unregistered:
  "map_of (activeNotes s) p = None \<Longrightarrow> forceStopNote e p s = (Normal, s)"
  by (simp add: forceStopNote_def)

lemma quiet_simps [simp]:
  "currentTime (quiet t) = t" "\<not> automation_throws (quiet t) g" "\<not> stop_throws (quiet t) r"
  "param_value (quiet t) g = 0" "\<not> suspended (quiet t)" "\<not> has_showMessage (quiet t)"
  "leading_digit (quiet t) k = 1"
  by (simp_all add: quiet_def)

lemma PianoModel_simps [simp]:
  "isBuilt PianoModel = False" "activeNotes PianoModel = []" "timers PianoModel = []"
  "next_ref PianoModel = 1" "material PianoModel = ''wood''" "masterGain PianoModel = 0"
  "dimensions PianoModel = \<lparr>length_cm = 80, width_cm = 280, height_cm = 40\<rparr>"
  "distortion PianoModel = None" "masterGain_value PianoModel = 0.7" "console PianoModel = []"
  by (simp_all add: PianoModel_def)

lemma buildPiano_empty:
  assumes "activeNotes s = []" and "\<not> suspended e" and "\<not> has_showMessage e"
  shows "buildPiano e s =
     (Normal, s\<lparr>isBuilt := True,
                console := console s @ [Log (BuildingPiano (dimensions s) (material s)),
                   Log (PianoBuilt (soundDescription (material s) (dimensions s)))]\<rparr>)"
  by (simp add: buildPiano_def assms and_then_stopAllNotes_empty)

lemma built_simps:
  "isBuilt built" "activeNotes built = []" "timers built = []" "next_ref built = 1"
  "material built = ''wood''" "masterGain built = 0" "dimensions built = dimensions PianoModel"
  by (simp_all add: built_def buildPiano_empty)

lemma played_simps:
  "isBuilt played" "activeNotes played = [(60, voice_A)]" "timers played = []" "next_ref played = 11"
  "material played = ''wood''" "masterGain played = 0" "dimensions played = dimensions PianoModel"
  by (simp_all add: played_def playNote_eq built_simps forceStopNote_unregistered start_voice_ok
      voice_A_def)

lemma released_simps:
  "isBuilt released" "activeNotes released = [(60, voice_A)]"
  "timers released =
      [\<lparr>delay_ms = cleanupTime voice_A, callback = Primary 60\<rparr>,
       \<lparr>delay_ms = cleanupTime voice_A + 1000, callback = Backup 60 voice_A\<rparr>,
       \<lparr>delay_ms = 5000, callback = Emergency 60 voice_A\<rparr>]"
  "next_ref released = 11"
  "material released = ''wood''" "masterGain released = 0" "dimensions released = dimensions PianoModel"
  by (simp_all add: released_def stopNote_def played_simps release_voice_quiet)

lemma replayed_simps:
  "isBuilt replayed" "activeNotes replayed = [(60, voice_B)]"
  "timers replayed = timers released"
  "next_ref replayed = 21"
  by (simp_all add: replayed_def playNote_eq forceStopNote_def released_simps force_stop_voice_quiet
       start_voice_ok voice_B_def)

lemma cleanup_A: "cleanupTime voice_A = 480"
  by (simp add: cleanupTime_def voice_A_def note_record_def releaseTime_of_def)

lemma stale: "ident voice_A \<noteq> ident voice_B" "ident voice_B \<noteq> ident voice_A"
  by (simp_all add: voice_A_def voice_B_def note_record_def)

lemma primary_deletes_B: "activeNotes (snd (fire_timer 0 replayed)) = []"
  by (simp add: fire_timer_def replayed_simps released_simps)

lemma backup_keeps_B: "activeNotes (snd (fire_timer 1 replayed)) = [(60, voice_B)]"
  by (simp add: fire_timer_def replayed_simps released_simps same_voice_def stale)

subsection \<open>The registry invariant\<close>

lemma presD: "pres P a \<Longrightarrow> P s \<Longrightarrow> P (snd (a s))"
  by (simp add: pres_def)

lemma pres_keeps: "keeps P a \<Longrightarrow> pres P a"
  by (simp add: pres_def keeps_def)

lemma pres_skip: "pres P skip"
  by (simp add: pres_def)

lemma pres_and_then: "pres P a \<Longrightarrow> pres P b \<Longrightarrow> pres P (and_then a b)"
  by (simp add: pres_def snd_and_then)

lemma pres_run_Nil: "pres P (run [])"
  by (simp add: pres_skip)

lemma pres_run_Cons: "pres P a \<Longrightarrow> pres P (run as) \<Longrightarrow> pres P (run (a # as))"
  by (simp add: pres_and_then)

lemma pres_for_each: "(\<And>x. pres P (f x)) \<Longrightarrow> pres P (for_each xs f)"
  by (induction xs) (simp_all add: for_each_Cons pres_skip pres_and_then)

lemma pres_with_state: "(\<And>s. pres P (f s)) \<Longrightarrow> pres P (with_state f)"
  by (simp add: pres_def with_state_def)

lemma pres_modify: "(\<And>s. P s \<Longrightarrow> P (g s)) \<Longrightarrow> pres P (modify g)"
  by (simp add: pres_def modify_def)

lemma keeps_with_state: "(\<And>s. keeps f (g s)) \<Longrightarrow> keeps f (with_state g)"
  by (simp add: keeps_def with_state_def)

lemma registry_ok_ignores [simp]:
  "registry_ok (s\<lparr>calls := cs\<rparr>) = registry_ok s"
  "registry_ok (s\<lparr>console := es\<rparr>) = registry_ok s"
  "registry_ok (s\<lparr>timers := ts\<rparr>) = registry_ok s"
  "registry_ok (s\<lparr>dimensions := d\<rparr>) = registry_ok s"
  "registry_ok (s\<lparr>material := m\<rparr>) = registry_ok s"
  "registry_ok (s\<lparr>masterGain_value := x\<rparr>) = registry_ok s"
  "registry_ok (s\<lparr>distortion := w\<rparr>) = registry_ok s"
  "registry_ok (s\<lparr>next_ref := r\<rparr>) = registry_ok s"
  by (simp_all add: registry_ok_def)

lemma registry_ok_delete:
  "registry_ok s \<Longrightarrow> registry_ok (s\<lparr>activeNotes := AList.delete p (activeNotes s)\<rparr>)"
  by (auto simp: registry_ok_def distinct_delete)

lemma pres_registry_forceStopNote: "pres registry_ok (forceStopNote e p)"
  unfolding pres_def
proof (intro allI impI)
  fix s
  assume ok: "registry_ok s"
  have "isBuilt (snd (forceStopNote e p s)) = isBuilt s"
    by (rule keepsD [OF keeps_forceStopNote]) simp_all
  with ok show "registry_ok (snd (forceStopNote e p s))"
    by (auto simp: registry_ok_def activeNotes_forceStopNote distinct_delete)
qed

lemma pres_registry_stopNote: "pres registry_ok (stopNote e p)"
  by (rule pres_keeps [OF keeps_stopNote]) simp_all

lemma pres_registry_stopAllNotes: "pres registry_ok (stopAllNotes e b)"
  unfolding pres_def stopAllNotes_def
  by (auto intro: presD [OF pres_for_each] pres_registry_forceStopNote pres_registry_stopNote)

lemma pres_registry_buildPiano: "pres registry_ok (buildPiano e)"
  unfolding buildPiano_def
  by (intro pres_run_Cons pres_run_Nil pres_with_state pres_registry_stopAllNotes pres_modify)
     (auto intro!: pres_keeps keeps_emit keeps_console_log keeps_skip simp: registry_ok_def)

lemma keeps_update_distortion:
  assumes "\<And>s x. f (s\<lparr>calls := x\<rparr>) = f s"
    and "\<And>s x. f (s\<lparr>console := x\<rparr>) = f s"
    and "\<And>s x. f (s\<lparr>distortion := x\<rparr>) = f s"
    and "\<And>s x. f (s\<lparr>next_ref := x\<rparr>) = f s"
  shows "keeps f (update_distortion vf)"
  unfolding update_distortion_def Let_def
  by (rule keeps_with_state)
     (auto split: option.split
        intro!: keeps_and_then keeps_console_log keeps_emit keeps_emits keeps_modify
          keeps_skip simp: assms)

lemma pres_registry_setDimensions: "pres registry_ok (setDimensions e len width height)"
  unfolding setDimensions_def Let_def
  by (intro pres_run_Cons pres_run_Nil pres_with_state)
     (auto intro!: pres_and_then pres_with_state pres_registry_stopAllNotes
        pres_registry_buildPiano pres_modify pres_skip
        pres_keeps [OF keeps_update_distortion] pres_keeps [OF keeps_console_log]
        pres_keeps [OF keeps_emit])

lemma pres_registry_setMaterial: "pres registry_ok (setMaterial e m)"
  unfolding setMaterial_def
  by (intro pres_run_Cons pres_run_Nil pres_with_state)
     (auto intro!: pres_registry_buildPiano pres_modify pres_skip)

lemma pres_registry_playNote: "pres registry_ok (playNote e p v)"
  unfolding pres_def
proof (intro allI impI)
  fix s
  assume "registry_ok s"
  let ?s1 = "snd (forceStopNote e p s)"
  have ok1: "registry_ok ?s1"
    using \<open>registry_ok s\<close> by (rule presD [OF pres_registry_forceStopNote])
  have built: "isBuilt ?s1 = isBuilt s"
    by (rule keepsD [OF keeps_forceStopNote]) simp_all
  show "registry_ok (snd (playNote e p v s))"
  proof (cases "isBuilt s")
    case False
    with ok1 show ?thesis by (simp add: playNote_eq)
  next
    case True
    show ?thesis
    proof (cases "automation_throws e (Suc (next_ref ?s1))")
      case throws: True
      with True ok1 show ?thesis by (simp add: playNote_eq start_voice_throws)
    next
      case False
      with True ok1 built show ?thesis
        by (simp add: playNote_eq start_voice_ok registry_ok_def distinct_update)
    qed
  qed
qed

lemma pres_registry_run_cleanup: "pres registry_ok (run_cleanup cb)"
  by (cases cb)
     (auto simp: pres_def registry_ok_def distinct_delete)

lemma pres_registry_fire_timer: "pres registry_ok (fire_timer i)"
  unfolding pres_def fire_timer_def
  by (auto intro: presD [OF pres_registry_run_cleanup])

lemma pres_registry_safety_sweep: "pres registry_ok (safety_sweep e)"
  unfolding safety_sweep_def
  by (rule pres_with_state)
     (auto intro!: pres_and_then pres_for_each pres_skip pres_registry_forceStopNote
        pres_keeps [OF keeps_console_log])

lemma pres_registry_handle: "pres registry_ok (handle e ev)"
  by (cases ev)
     (simp_all add: pres_registry_setDimensions pres_registry_setMaterial pres_registry_buildPiano
        pres_registry_playNote pres_registry_stopNote pres_registry_forceStopNote
        pres_registry_stopAllNotes pres_registry_fire_timer pres_registry_safety_sweep)

lemma registry_ok_exec: "registry_ok s \<Longrightarrow> registry_ok (exec evs s)"
proof (induction evs arbitrary: s)
  case Nil
  then show ?case by simp
next
  case (Cons x evs)
  obtain e ev where x: "x = (e, ev)" by (cases x)
  from Cons.prems have "registry_ok (snd (handle e ev s))"
    by (rule presD [OF pres_registry_handle])
  then show ?case by (simp add: x Cons.IH)
qed

lemma registry_ok_reachable: "registry_ok (exec evs PianoModel)"
  by (rule registry_ok_exec) (simp add: registry_ok_def PianoModel_def)

lemma distinct_keys_count: "distinct (map fst xs) \<Longrightarrow> length (filter (\<lambda>kv. fst kv = p) xs) \<le> 1"
proof (induction xs)
  case Nil
  then show ?case by simp
next
  case (Cons x xs)
  show ?case
  proof (cases "fst x = p")
    case True
    with Cons.prems have "p \<notin> fst ` set xs" by auto
    then have "filter (\<lambda>kv. fst kv = p) xs = []"
      by (auto simp: filter_empty_conv)
    with True show ?thesis by simp
  next
    case False
    with Cons show ?thesis by simp
  qed
qed

lemma no_entry_after_delete: "filter (\<lambda>kv. fst kv = p) (AList.delete p xs) = []"
  by (auto simp: filter_empty_conv AList.delete_eq)

lemma activeNotes_start_voice:
  "activeNotes (snd (start_voice e p v s)) =
     (if automation_throws e (Suc (next_ref s)) then activeNotes s
      else AList.update p (note_record (material s) (dimensions s) (allocate (next_ref s)) (next_ref s + 9))
             (activeNotes s))"
  by (simp add: start_voice_ok start_voice_throws)

subsection \<open>buildPiano and setDimensions\<close>

lemma never_throws_with_state: "(\<And>s. never_throws (f s)) \<Longrightarrow> never_throws (with_state f)"
  by (simp add: never_throws_def with_state_def)

lemma never_throws_emits: "never_throws (emits cs)"
  by (simp add: emits_def never_throws_modify)

lemma never_throws_emit: "never_throws (emit c)"
  by (simp add: emit_def never_throws_emits)

lemma never_throws_run_Nil: "never_throws (run [])"
  by (simp add: never_throws_skip)

lemma never_throws_run_Cons: "never_throws a \<Longrightarrow> never_throws (run as) \<Longrightarrow> never_throws (run (a # as))"
  by (simp add: never_throws_and_then)

lemma and_then_never_throws: "never_throws a \<Longrightarrow> and_then a b s = b (snd (a s))"
  by (cases "a s") (auto simp: and_then_def never_throws_def dest: spec [of _ s])

lemma never_throws_buildPiano: "never_throws (buildPiano e)"
  unfolding buildPiano_def
  by (intro never_throws_run_Cons never_throws_run_Nil never_throws_with_state
        never_throws_stopAllNotes_immediate never_throws_modify never_throws_console_log)
     (simp_all add: never_throws_emit never_throws_skip)

lemma never_throws_update_distortion: "never_throws (update_distortion vf)"
  unfolding update_distortion_def Let_def
  by (rule never_throws_with_state)
     (auto split: option.split
        intro!: never_throws_and_then never_throws_console_log never_throws_emit never_throws_emits
          never_throws_modify never_throws_skip)

lemma keeps_buildPiano:
  assumes "\<And>s x. f (s\<lparr>calls := x\<rparr>) = f s"
    and "\<And>s x. f (s\<lparr>console := x\<rparr>) = f s"
    and "\<And>s x. f (s\<lparr>activeNotes := x\<rparr>) = f s"
    and "\<And>s x. f (s\<lparr>timers := x\<rparr>) = f s"
    and "\<And>s x. f (s\<lparr>isBuilt := x\<rparr>) = f s"
  shows "keeps f (buildPiano e)"
  unfolding buildPiano_def
  by (intro keeps_run_Cons keeps_run_Nil keeps_with_state keeps_stopAllNotes keeps_modify
        keeps_console_log assms)
     (simp_all add: keeps_emit keeps_skip assms)

lemma setDimensions_unbuilt:
  "\<not> isBuilt s \<Longrightarrow>
   setDimensions e len width height s =
     (Normal, s\<lparr>dimensions := \<lparr>length_cm = len, width_cm = width, height_cm = height\<rparr>,
                console := console s @ [Log (DimensionsUpdated len width height)]\<rparr>)"
  by (simp add: setDimensions_def)

lemma dimensions_setDimensions:
  "dimensions (snd (setDimensions e len width height s))
     = \<lparr>length_cm = len, width_cm = width, height_cm = height\<rparr>"
proof -
  let ?rest = "run
     [console_log (Log (DimensionsUpdated len width height)),
      with_state (\<lambda>s.
        if isBuilt s then
          (let vf = volumeFactor len width height
           in run [stopAllNotes e False,
                   console_log (Log (AdjustingMasterVolume vf)),
                   modify (\<lambda>t. t\<lparr>masterGain_value := min (0.7 * vf) 1.2\<rparr>),
                   with_state (\<lambda>t. emit (SetGain (masterGain t) (min (0.7 * vf) 1.2))),
                   update_distortion vf,
                   buildPiano e])
        else skip)]"
  have "keeps dimensions ?rest"
    unfolding Let_def
    by (intro keeps_run_Cons keeps_run_Nil keeps_with_state keeps_console_log)
       (auto intro!: keeps_and_then keeps_stopAllNotes keeps_console_log keeps_modify
          keeps_with_state keeps_emit keeps_update_distortion keeps_buildPiano keeps_skip)
  then have "dimensions (snd (?rest (s\<lparr>dimensions := \<lparr>length_cm = len, width_cm = width, height_cm = height\<rparr>\<rparr>)))
      = dimensions (s\<lparr>dimensions := \<lparr>length_cm = len, width_cm = width, height_cm = height\<rparr>\<rparr>)"
    by (rule keepsD)
  moreover have "setDimensions e len width height s
      = ?rest (s\<lparr>dimensions := \<lparr>length_cm = len, width_cm = width, height_cm = height\<rparr>\<rparr>)"
    unfolding setDimensions_def by (simp only: run.simps and_then_modify)
  ultimately show ?thesis by simp
qed

lemma never_throws_setDimensions:
  assumes "\<And>g. \<not> automation_throws e g"
  shows "never_throws (setDimensions e len width height)"
  unfolding setDimensions_def Let_def
  by (intro never_throws_run_Cons never_throws_run_Nil never_throws_with_state
        never_throws_modify never_throws_console_log)
     (auto intro!: never_throws_and_then never_throws_stopAllNotes_release assms
        never_throws_console_log never_throws_modify never_throws_with_state never_throws_emit
        never_throws_update_distortion never_throws_buildPiano never_throws_skip)

lemma masterGain_value_setDimensions:
  assumes "isBuilt s" and "\<And>g. \<not> automation_throws e g"
  shows "masterGain_value (snd (setDimensions e len width height s))
     = min (0.7 * volumeFactor len width height) 1.2"
proof -
  let ?vf = "volumeFactor len width height"
  let ?tail = "run [update_distortion ?vf, buildPiano e]"
  have tail: "keeps masterGain_value ?tail"
    by (intro keeps_run_Cons keeps_run_Nil keeps_update_distortion keeps_buildPiano) simp_all
  have quiet: "never_throws (stopAllNotes e False)"
    by (rule never_throws_stopAllNotes_release) (rule assms)
  let ?s2 = "s\<lparr>dimensions := \<lparr>length_cm = len, width_cm = width, height_cm = height\<rparr>,
                console := console s @ [Log (DimensionsUpdated len width height)]\<rparr>"
  let ?s3 = "snd (stopAllNotes e False ?s2)"
  have "isBuilt ?s2" using assms(1) by simp
  then have "setDimensions e len width height s =
     ?tail (?s3\<lparr>console := console ?s3 @ [Log (AdjustingMasterVolume ?vf)],
                 masterGain_value := min (0.7 * ?vf) 1.2,
                 calls := calls ?s3 @ [SetGain (masterGain ?s3) (min (0.7 * ?vf) 1.2)]\<rparr>)"
    unfolding setDimensions_def Let_def
    by (simp add: and_then_skip_right with_state_apply and_then_never_throws [OF quiet])
  then show ?thesis
    by (simp only: keepsD [OF tail]) simp
qed

subsection \<open>One entry per pitch\<close>

text \<open>
  After any sequence of operations of the engine the registry holds at most one entry for
  each pitch; \<^verbatim>\<open>playNote\<close> runs \<^verbatim>\<open>forceStopNote\<close> for its pitch and then, if the instrument
  is built, creates the new voice and writes it under the pitch by its last statement.
\<close>

lemma registry_one_entry_per_pitch:
  "length (filter (\<lambda>kv. fst kv = p) (activeNotes (exec evs PianoModel))) \<le> 1
   \<and> playNote e p v s =
       (if isBuilt s then start_voice e p v (snd (forceStopNote e p s))
        else (Normal, (snd (forceStopNote e p s))
                        \<lparr>console := console (snd (forceStopNote e p s)) @ [Warn PianoNotBuilt]\<rparr>))
   \<and> filter (\<lambda>kv. fst kv = p) (activeNotes (snd (forceStopNote e p s))) = []
   \<and> activeNotes (snd (start_voice e p v s)) =
       (if automation_throws e (Suc (next_ref s)) then activeNotes s
        else AList.update p
               (note_record (material s) (dimensions s) (allocate (next_ref s)) (next_ref s + 9))
               (activeNotes s))"
proof -
  have "registry_ok (exec evs PianoModel)"
    by (rule registry_ok_reachable)
  then have "length (filter (\<lambda>kv. fst kv = p) (activeNotes (exec evs PianoModel))) \<le> 1"
    using distinct_keys_count [of "activeNotes (exec evs PianoModel)" p]
    by (simp add: registry_ok_def)
  moreover have "filter (\<lambda>kv. fst kv = p) (activeNotes (snd (forceStopNote e p s))) = []"
    by (simp only: activeNotes_forceStopNote no_entry_after_delete)
  ultimately show ?thesis
    using playNote_eq [of e p v s] activeNotes_start_voice [of e p v s] by blast
qed

subsection \<open>Stale cleanup timers\<close>

text \<open>
  Claim C3 (evaluated on a run). Pitch 60 is released and struck again before the primary
  cleanup timer of the release (480 ms) is due. The registry then holds the second voice,
  and the three timers of the first voice are pending. When the primary timer fires it
  deletes the entry of the second voice; the backup and the emergency timer, which compare
  the entry with their own voice, leave it in place.
\<close>

theorem primary_cleanup_removes_newer_voice:
  "replayed = exec [(quiet 0, BuildPiano), (quiet 1, PlayNote 60 0.7), (quiet 2, StopNote 60),
                    (quiet 2.2, PlayNote 60 0.7)] PianoModel
   \<and> activeNotes replayed = [(60, voice_B)]
   \<and> timers replayed =
        [\<lparr>delay_ms = 480, callback = Primary 60\<rparr>,
         \<lparr>delay_ms = 1480, callback = Backup 60 voice_A\<rparr>,
         \<lparr>delay_ms = 5000, callback = Emergency 60 voice_A\<rparr>]
   \<and> ident voice_A \<noteq> ident voice_B
   \<and> activeNotes (snd (fire_timer 0 replayed)) = []
   \<and> activeNotes (snd (fire_timer 1 replayed)) = [(60, voice_B)]
   \<and> activeNotes (snd (fire_timer 2 replayed)) = [(60, voice_B)]"
proof -
  have "replayed = exec [(quiet 0, BuildPiano), (quiet 1, PlayNote 60 0.7), (quiet 2, StopNote 60),
                    (quiet 2.2, PlayNote 60 0.7)] PianoModel"
    by (simp add: replayed_def released_def played_def built_def)
  moreover have "activeNotes (snd (fire_timer 2 replayed)) = [(60, voice_B)]"
    by (simp add: fire_timer_def replayed_simps released_simps same_voice_def stale)
  ultimately show ?thesis
    using primary_deletes_B backup_keeps_B stale
    by (simp add: replayed_simps released_simps cleanup_A)
qed

subsection \<open>stopAllNotes on a run\<close>

lemma replayed_more:
  "material replayed = ''wood''" "masterGain replayed = 0" "dimensions replayed = dimensions PianoModel"
  by (simp_all add: replayed_def playNote_eq forceStopNote_def released_simps force_stop_voice_quiet
       start_voice_ok)


subsection \<open>Pitch to frequency\<close>

lemma frequency_of_69: "frequency_of 69 = 440"
  by (simp add: frequency_of_def)

lemma quarter_root_bounds:
  fixes x :: real
  assumes "0 < x" and "x ^ 4 = 1 / 8"
  shows "26162 / 44000 \<le> x" and "x \<le> 26164 / 44000"
proof -
  show "26162 / 44000 \<le> x"
  proof (rule ccontr)
    assume "\<not> 26162 / 44000 \<le> x"
    then have "x < 26162 / 44000" by simp
    with assms(1) have "x ^ 4 < (26162 / 44000) ^ 4"
      by (intro power_strict_mono) simp_all
    also have "\<dots> < 1 / 8" by (simp add: power_divide)
    finally show False using assms(2) by simp
  qed
  show "x \<le> 26164 / 44000"
  proof (rule ccontr)
    assume "\<not> x \<le> 26164 / 44000"
    then have "26164 / 44000 < x" by simp
    then have "(26164 / 44000) ^ 4 < x ^ 4"
      by (intro power_strict_mono) simp_all
    moreover have "1 / 8 < (26164 / 44000 :: real) ^ 4" by (simp add: power_divide)
    ultimately show False using assms(2) by simp
  qed
qed

lemma frequency_of_60: "\<bar>frequency_of 60 - 261.63\<bar> \<le> 0.01"
proof -
  define x :: real where "x = 2 powr (- 3 / 4)"
  have pos: "0 < x" by (simp add: x_def)
  have "x ^ 4 = x powr 4" using pos by (simp add: powr_numeral)
  also have "\<dots> = 2 powr (- 3)" by (simp add: x_def powr_powr)
  also have "\<dots> = 1 / 8" by (simp add: powr_minus_divide)
  finally have "x ^ 4 = 1 / 8" .
  from quarter_root_bounds [OF pos this] have "26162 / 44000 \<le> x" "x \<le> 26164 / 44000" .
  moreover have "frequency_of 60 = 440 * x" by (simp add: frequency_of_def x_def)
  ultimately show ?thesis unfolding abs_le_iff by simp
qed

subsection \<open>The backend calls of playNote\<close>

lemma appends_automation: "ok c \<Longrightarrow> appends ok (automation e g c)"
  by (simp add: appends_def automation_def emit_def emits_def modify_def)

lemma appends_stop_osc: "ok (Stop r t) \<Longrightarrow> appends ok (stop_osc e r t)"
  by (simp add: appends_def stop_osc_def emit_def emits_def modify_def)

lemma appends_console_log: "appends ok (console_log entry)"
  by (simp add: console_log_def appends_modify)

lemma appends_run_Nil: "appends ok (run [])"
  by (simp add: appends_skip)

lemma appends_run_Cons: "appends ok a \<Longrightarrow> appends ok (run as) \<Longrightarrow> appends ok (run (a # as))"
  by (simp add: appends_and_then)

lemma appends_fade: "appends is_teardown (fade e g t)"
  unfolding fade_def by (rule appends_for_each) (auto simp: fade_calls_def intro: appends_automation)

lemma appends_fade_opt: "appends is_teardown (fade_opt e g t)"
  by (cases g) (simp_all add: fade_opt_def appends_skip appends_fade)

lemma appends_stop_osc_opt: "appends is_teardown (stop_osc_opt e r t)"
  by (cases r) (simp_all add: stop_osc_opt_def appends_skip appends_stop_osc)

lemma appends_stop_oscillators: "appends is_teardown (stop_oscillators e v t)"
  unfolding stop_oscillators_def
  by (intro appends_run_Cons appends_run_Nil appends_stop_osc appends_stop_osc_opt) simp_all

lemma appends_force_stop_voice: "appends is_teardown (force_stop_voice e p v)"
  unfolding force_stop_voice_def Let_def
  by (intro appends_try_finally appends_try_catch appends_run_Cons appends_run_Nil appends_fade
        appends_fade_opt appends_stop_oscillators appends_console_log appends_modify) simp

lemma appends_forceStopNote: "appends is_teardown (forceStopNote e p)"
  unfolding appends_def forceStopNote_def
proof
  fix s
  show "\<exists>cs. calls (snd (case map_of (activeNotes s) p of None \<Rightarrow> (Normal, s)
                  | Some v \<Rightarrow> force_stop_voice e p v s)) = calls s @ cs \<and> list_all is_teardown cs"
  proof (cases "map_of (activeNotes s) p")
    case None
    then show ?thesis by simp
  next
    case (Some v)
    with appends_force_stop_voice [of e p v] show ?thesis by (simp add: appends_def)
  qed
qed

text \<open>\<^verbatim>\<open>playNote\<close> on a built instrument, when the envelope calls do not raise.\<close>

lemma playNote_built:
  assumes "isBuilt s" and "\<not> automation_throws e (Suc (next_ref s))"
  shows "\<exists>cs. list_all is_teardown cs
     \<and> fst (playNote e p v s) = Normal
     \<and> calls (snd (playNote e p v s)) = calls s @ cs @ voice_calls e s p v
     \<and> activeNotes (snd (playNote e p v s))
         = AList.update p (note_record (material s) (dimensions s) (allocate (next_ref s)) (next_ref s + 9))
             (AList.delete p (activeNotes s))
     \<and> next_ref (snd (playNote e p v s)) = next_ref s + 10"
proof -
  let ?s1 = "snd (forceStopNote e p s)"
  from appends_forceStopNote [of e p] obtain cs
    where cs: "calls ?s1 = calls s @ cs" "list_all is_teardown cs"
    unfolding appends_def by blast
  have same: "next_ref ?s1 = next_ref s" "material ?s1 = material s"
    "dimensions ?s1 = dimensions s" "masterGain ?s1 = masterGain s"
    by (rule keepsD [OF keeps_forceStopNote]; simp)+
  have reg: "activeNotes ?s1 = AList.delete p (activeNotes s)"
    by (rule activeNotes_forceStopNote)
  have vc: "voice_calls e ?s1 p v = voice_calls e s p v"
    by (simp add: voice_calls_def same)
  have "\<not> automation_throws e (Suc (next_ref ?s1))"
    using assms(2) by (simp add: same)
  from start_voice_ok [OF this, of p v] assms(1) have "playNote e p v s =
    (Normal, ?s1\<lparr>calls := calls ?s1 @ voice_calls e ?s1 p v,
                activeNotes := AList.update p
                  (note_record (material ?s1) (dimensions ?s1) (allocate (next_ref ?s1)) (next_ref ?s1 + 9))
                  (activeNotes ?s1),
                next_ref := next_ref ?s1 + 10\<rparr>)"
    by (simp only: playNote_eq if_True)
  then show ?thesis
    using cs by (simp add: same reg vc)
qed

lemma teardown_no_frequency: "list_all is_teardown cs \<Longrightarrow> filter (sets_frequency r) cs = []"
proof (induction cs)
  case Nil
  then show ?case by simp
next
  case (Cons c cs)
  then show ?case by (cases c) simp_all
qed

lemma teardown_no_start: "list_all is_teardown cs \<Longrightarrow> filter is_start cs = []"
proof (induction cs)
  case Nil
  then show ?case by simp
next
  case (Cons c cs)
  then show ?case by (cases c) simp_all
qed

lemma frequency_calls:
  "filter (sets_frequency (next_ref s)) (voice_calls e s p v)
     = [SetFrequency (next_ref s) (frequency_of p)]"
  by (simp add: voice_calls_def Let_def create_calls_def material_calls_def connect_calls_def
      envelope_calls_def start_calls_def allocate_def)

lemma start_calls_of_voice:
  "material s \<noteq> ''experimental'' \<Longrightarrow>
   filter is_start (voice_calls e s p v)
     = [Start (next_ref s) (currentTime e), Start (next_ref s + 3) (currentTime e),
        Start (next_ref s + 5) (currentTime e)]"
  by (simp add: voice_calls_def Let_def create_calls_def material_calls_def connect_calls_def
      envelope_calls_def start_calls_def allocate_def)

lemma sub_oscillator_calls:
  "CreateOscillator (next_ref s + 7) \<in> set (voice_calls e s p v)"
  "SetFrequency (next_ref s + 7) (frequency_of p * 0.5) \<in> set (voice_calls e s p v)"
  "material s = ''plastic'' \<Longrightarrow> Connect (next_ref s + 7) (next_ref s + 8) \<in> set (voice_calls e s p v)"
  "material s = ''plastic'' \<Longrightarrow> Connect (next_ref s + 8) (next_ref s + 2) \<in> set (voice_calls e s p v)"
  by (simp_all add: voice_calls_def Let_def create_calls_def material_calls_def allocate_def)

text \<open>
  Claim C9. On a built instrument (and when the backend accepts the envelope calls),
  \<^verbatim>\<open>playNote\<close> completes normally, the primary oscillator of the registered voice is the
  first node it creates, and the one frequency it sets on that oscillator is
  \<open>440 * 2 powr ((pitch - 69) / 12)\<close>: exactly 440 for pitch 69, and within 0.01 of 261.63
  for pitch 60. Numbers are real numbers here.
\<close>

theorem playNote_frequency:
  assumes "isBuilt s" and "\<not> automation_throws e (Suc (next_ref s))"
  shows "fst (playNote e p v s) = Normal
    \<and> map_option oscillator (map_of (activeNotes (snd (playNote e p v s))) p) = Some (next_ref s)
    \<and> filter (sets_frequency (next_ref s)) (drop (length (calls s)) (calls (snd (playNote e p v s))))
        = [SetFrequency (next_ref s) (440 * 2 powr ((real_of_int p - 69) / 12))]
    \<and> frequency_of p = 440 * 2 powr ((real_of_int p - 69) / 12)
    \<and> frequency_of 69 = 440
    \<and> \<bar>frequency_of 60 - 261.63\<bar> \<le> 0.01"
proof -
  from playNote_built [OF assms, of p v] obtain cs where
    cs: "list_all is_teardown cs" and ok: "fst (playNote e p v s) = Normal"
    and calls: "calls (snd (playNote e p v s)) = calls s @ cs @ voice_calls e s p v"
    and reg: "activeNotes (snd (playNote e p v s))
         = AList.update p (note_record (material s) (dimensions s) (allocate (next_ref s)) (next_ref s + 9))
             (AList.delete p (activeNotes s))"
    by blast
  have "map_option oscillator (map_of (activeNotes (snd (playNote e p v s))) p) = Some (next_ref s)"
    by (simp add: reg update_conv' note_record_def allocate_def)
  moreover have "filter (sets_frequency (next_ref s)) (drop (length (calls s)) (calls (snd (playNote e p v s))))
        = [SetFrequency (next_ref s) (frequency_of p)]"
    by (simp add: calls teardown_no_frequency [OF cs] frequency_calls)
  ultimately show ?thesis
    using ok frequency_of_69 frequency_of_60 by (simp add: frequency_of_def)
qed

text \<open>
  Claim C10. With one of the four materials of the selector, on a built instrument (and
  when the backend accepts the envelope calls), \<^verbatim>\<open>playNote\<close> starts exactly three
  oscillators: the first, fourth and sixth node it creates. The eighth node, the
  sub-oscillator, is created and given half the frequency, and for plastic it is connected
  to its gain and the gain to the filter, but it is not started, and the registered voice
  holds \<^verbatim>\<open>null\<close> for it and for its gain.
\<close>

theorem sub_oscillator_never_started:
  assumes "isBuilt s" and "\<not> automation_throws e (Suc (next_ref s))"
    and "material s = ''wood'' \<or> material s = ''metal'' \<or> material s = ''glass'' \<or> material s = ''plastic''"
  shows "filter is_start (drop (length (calls s)) (calls (snd (playNote e p v s))))
        = [Start (next_ref s) (currentTime e), Start (next_ref s + 3) (currentTime e),
           Start (next_ref s + 5) (currentTime e)]
    \<and> CreateOscillator (next_ref s + 7) \<in> set (drop (length (calls s)) (calls (snd (playNote e p v s))))
    \<and> SetFrequency (next_ref s + 7) (frequency_of p * 0.5)
        \<in> set (drop (length (calls s)) (calls (snd (playNote e p v s))))
    \<and> (material s = ''plastic'' \<longrightarrow>
         Connect (next_ref s + 7) (next_ref s + 8)
           \<in> set (drop (length (calls s)) (calls (snd (playNote e p v s))))
         \<and> Connect (next_ref s + 8) (next_ref s + 2)
           \<in> set (drop (length (calls s)) (calls (snd (playNote e p v s)))))
    \<and> map_option oscillator4 (map_of (activeNotes (snd (playNote e p v s))) p) = Some None
    \<and> map_option experimentalGain (map_of (activeNotes (snd (playNote e p v s))) p) = Some None"
proof -
  from playNote_built [OF assms(1,2), of p v] obtain cs where
    cs: "list_all is_teardown cs"
    and calls: "calls (snd (playNote e p v s)) = calls s @ cs @ voice_calls e s p v"
    and reg: "activeNotes (snd (playNote e p v s))
         = AList.update p (note_record (material s) (dimensions s) (allocate (next_ref s)) (next_ref s + 9))
             (AList.delete p (activeNotes s))"
    by blast
  from assms(3) have m: "material s \<noteq> ''experimental''" by auto
  have new: "drop (length (calls s)) (calls (snd (playNote e p v s))) = cs @ voice_calls e s p v"
    by (simp add: calls)
  have "filter is_start (cs @ voice_calls e s p v)
        = [Start (next_ref s) (currentTime e), Start (next_ref s + 3) (currentTime e),
           Start (next_ref s + 5) (currentTime e)]"
    by (simp add: teardown_no_start [OF cs] start_calls_of_voice [OF m])
  moreover have "map_option oscillator4 (map_of (activeNotes (snd (playNote e p v s))) p) = Some None"
    "map_option experimentalGain (map_of (activeNotes (snd (playNote e p v s))) p) = Some None"
    using m by (simp_all add: reg update_conv' note_record_def)
  ultimately show ?thesis
    unfolding new using sub_oscillator_calls [where s = s and e = e and p = p and v = v] by simp
qed

lemma plastic_piano_simps:
  "isBuilt plastic_piano" "material plastic_piano = ''plastic''" "next_ref plastic_piano = 1"
  "activeNotes plastic_piano = []"
  by (simp_all add: plastic_piano_def setMaterial_def buildPiano_empty)

theorem playNote_frequency_witness:
  "isBuilt built \<and> \<not> automation_throws (quiet 1) (Suc (next_ref built))
   \<and> fst (playNote (quiet 1) 69 0.7 built) = Normal
   \<and> filter (sets_frequency 1) (drop (length (calls built)) (calls (snd (playNote (quiet 1) 69 0.7 built))))
       = [SetFrequency 1 440]"
  using playNote_frequency [of built "quiet 1" 69 "0.7"]
  by (simp add: built_simps)

theorem sub_oscillator_never_started_witness:
  "isBuilt plastic_piano \<and> \<not> automation_throws (quiet 1) (Suc (next_ref plastic_piano))
   \<and> material plastic_piano = ''plastic''
   \<and> filter is_start (drop (length (calls plastic_piano))
         (calls (snd (playNote (quiet 1) 60 0.7 plastic_piano))))
       = [Start 1 1, Start 4 1, Start 6 1]
   \<and> Connect 8 9 \<in> set (drop (length (calls plastic_piano))
         (calls (snd (playNote (quiet 1) 60 0.7 plastic_piano))))
   \<and> map_option oscillator4 (map_of (activeNotes (snd (playNote (quiet 1) 60 0.7 plastic_piano))) 60)
       = Some None"
  using sub_oscillator_never_started [of plastic_piano "quiet 1" 60 "0.7"]
  by (simp add: plastic_piano_simps)

subsection \<open>Master gain\<close>

text \<open>
  Claim C4, amended. On a built instrument, when the backend raises no automation
  exception, \<^verbatim>\<open>setDimensions\<close> completes normally and sets the master gain to
  \<open>min (0.7 * volumeFactor) 1.2\<close> with \<open>volumeFactor = length * width * height / (180 * 150 * 40)\<close>.
  At the default dimensions of the constructor (80, 280, 40) the volume factor is 112/135
  and the gain set is 392/675; the volume factor is 1 and the gain 0.7 at the reference
  dimensions (180, 150, 40).
\<close>

theorem master_gain_from_volume:
  assumes "isBuilt s" and "\<forall>g. \<not> automation_throws e g"
  shows "fst (setDimensions e len width height s) = Normal
    \<and> volumeFactor len width height = (len * width * height) / (180 * 150 * 40)
    \<and> masterGain_value (snd (setDimensions e len width height s))
        = min (0.7 * volumeFactor len width height) 1.2
    \<and> volumeFactor 80 280 40 = 112 / 135
    \<and> min (0.7 * volumeFactor 80 280 40) 1.2 = 392 / 675
    \<and> volumeFactor 180 150 40 = 1
    \<and> min (0.7 * volumeFactor 180 150 40) 1.2 = 0.7"
proof -
  from assms(2) have calm: "\<And>g. \<not> automation_throws e g" by simp
  have "fst (setDimensions e len width height s) = Normal"
    by (rule never_throwsD [OF never_throws_setDimensions]) (rule calm)
  moreover have "masterGain_value (snd (setDimensions e len width height s))
        = min (0.7 * volumeFactor len width height) 1.2"
    by (rule masterGain_value_setDimensions [OF assms(1) calm])
  moreover have "volumeFactor 80 280 40 = 112 / 135" "volumeFactor 180 150 40 = 1"
    by (simp_all add: volumeFactor_def)
  ultimately show ?thesis by (simp add: volumeFactor_def)
qed

theorem master_gain_from_volume_witness:
  "isBuilt built \<and> (\<forall>g. \<not> automation_throws (quiet 5) g)
   \<and> fst (setDimensions (quiet 5) 80 280 40 built) = Normal
   \<and> masterGain_value (snd (setDimensions (quiet 5) 80 280 40 built)) = 392 / 675"
  using master_gain_from_volume [of built "quiet 5" 80 280 40]
  by (simp add: built_simps)

text \<open>
  At the default dimensions the volume factor is not 1, and \<^verbatim>\<open>setDimensions\<close> with them
  on the built default instrument does not leave the master gain at 0.7.
\<close>

theorem default_volume_counterexample:
  "volumeFactor (length_cm (dimensions PianoModel)) (width_cm (dimensions PianoModel))
      (height_cm (dimensions PianoModel)) \<noteq> 1
   \<and> masterGain_value (snd (setDimensions (quiet 5) 80 280 40 built)) \<noteq> 0.7"
proof -
  have "masterGain_value (snd (setDimensions (quiet 5) 80 280 40 built))
      = min (0.7 * volumeFactor 80 280 40) 1.2"
    by (rule masterGain_value_setDimensions) (simp_all add: built_simps)
  then show ?thesis by (simp add: volumeFactor_def)
qed

subsection \<open>Dimensions are stored as given\<close>

text \<open>
  Claim C8, amended. \<^verbatim>\<open>setDimensions\<close> stores the three values it is given, whatever they
  are and whatever the backend does: nothing is clamped and nothing is rejected. On an
  instrument that is not built it does nothing else but log; on a built one it completes
  normally when the backend raises no automation exception.
\<close>

theorem setDimensions_stores_unclamped:
  "dimensions (snd (setDimensions e len width height s))
     = \<lparr>length_cm = len, width_cm = width, height_cm = height\<rparr>
   \<and> (\<not> isBuilt s \<longrightarrow>
        setDimensions e len width height s
        = (Normal, s\<lparr>dimensions := \<lparr>length_cm = len, width_cm = width, height_cm = height\<rparr>,
                     console := console s @ [Log (DimensionsUpdated len width height)]\<rparr>))
   \<and> ((\<forall>g. \<not> automation_throws e g) \<longrightarrow> fst (setDimensions e len width height s) = Normal)"
  by (simp add: dimensions_setDimensions setDimensions_unbuilt
      never_throwsD [OF never_throws_setDimensions])

theorem setDimensions_stores_unclamped_witness:
  "\<not> isBuilt PianoModel \<and> (\<forall>g. \<not> automation_throws (quiet 0) g)
   \<and> setDimensions (quiet 0) 100000 (- 5) 0 PianoModel
      = (Normal, PianoModel\<lparr>dimensions := \<lparr>length_cm = 100000, width_cm = - 5, height_cm = 0\<rparr>,
                   console := [Log (DimensionsUpdated 100000 (- 5) 0)]\<rparr>)
   \<and> fst (setDimensions (quiet 0) 100000 (- 5) 0 built) = Normal
   \<and> dimensions (snd (setDimensions (quiet 0) 100000 (- 5) 0 built))
      = \<lparr>length_cm = 100000, width_cm = - 5, height_cm = 0\<rparr>"
  using setDimensions_stores_unclamped [of "quiet 0" 100000 "- 5" 0 PianoModel]
    setDimensions_stores_unclamped [of "quiet 0" 100000 "- 5" 0 built]
  by simp

text \<open>
  A length of 100000, a width of -5 and a height of 0 are stored as they are; none of them
  lies in the editor's range of 30 to 400.
\<close>

theorem no_clamp_counterexample:
  "dimensions (snd (setDimensions (quiet 0) 100000 (- 5) 0 PianoModel))
     = \<lparr>length_cm = 100000, width_cm = - 5, height_cm = 0\<rparr>
   \<and> \<not> length_cm (dimensions (snd (setDimensions (quiet 0) 100000 (- 5) 0 PianoModel))) \<le> 400
   \<and> \<not> 30 \<le> width_cm (dimensions (snd (setDimensions (quiet 0) 100000 (- 5) 0 PianoModel)))
   \<and> \<not> 30 \<le> height_cm (dimensions (snd (setDimensions (quiet 0) 100000 (- 5) 0 PianoModel)))"
  by (simp add: dimensions_setDimensions)

text \<open>No range bounds the stored length.\<close>

lemma no_range_bounds_length:
  "\<not> (\<exists>lo hi. \<forall>len.
        lo \<le> length_cm (dimensions (snd (setDimensions (quiet 0) len 150 40 PianoModel)))
        \<and> length_cm (dimensions (snd (setDimensions (quiet 0) len 150 40 PianoModel))) \<le> hi)"
proof
  assume "\<exists>lo hi. \<forall>len.
        lo \<le> length_cm (dimensions (snd (setDimensions (quiet 0) len 150 40 PianoModel)))
        \<and> length_cm (dimensions (snd (setDimensions (quiet 0) len 150 40 PianoModel))) \<le> hi"
  then obtain lo hi :: real where "\<forall>len. lo \<le> len \<and> len \<le> hi"
    by (auto simp: dimensions_setDimensions)
  then have "hi + 1 \<le> hi" by blast
  then show False by simp
qed

subsection \<open>The envelope\<close>

lemma envelope_calls_of_voice:
  "set (envelope_calls (dimensions s) (allocate (next_ref s)) v (currentTime e))
     \<subseteq> set (voice_calls e s p v)"
  by (auto simp: voice_calls_def Let_def)

text \<open>
  The comment in \<^verbatim>\<open>playNote\<close> reads "smaller height = faster attack"; the expression
  makes the attack time fall as the height grows, from 0.1 s at height 0 to the floor of
  0.001 s from height 100 on.
\<close>

lemma attackTime_falls_with_height:
  "height_cm d \<le> height_cm d' \<Longrightarrow> attackTime d' \<le> attackTime d"
  by (auto simp: attackTime_def max_def)

lemma attackTime_examples:
  "attackTime \<lparr>length_cm = 80, width_cm = 280, height_cm = 0\<rparr> = 0.1"
  "attackTime \<lparr>length_cm = 80, width_cm = 280, height_cm = 100\<rparr> = 0.001"
  by (simp_all add: attackTime_def)

subsection \<open>playNote before the instrument is built\<close>

text \<open>
  Claim C6. When the instrument is not built, \<^verbatim>\<open>playNote\<close> completes normally, allocates
  no object, makes no backend call other than those of the force stop of a voice already
  registered for the pitch, and leaves no entry for the pitch. In every state the engine can
  reach with the instrument not built, the registry is empty and \<^verbatim>\<open>playNote\<close> changes
  nothing but the console, which gains the warning.
\<close>

theorem playNote_before_build:
  "(\<not> isBuilt s \<longrightarrow>
      fst (playNote e p v s) = Normal
      \<and> next_ref (snd (playNote e p v s)) = next_ref s
      \<and> activeNotes (snd (playNote e p v s)) = AList.delete p (activeNotes s)
      \<and> (\<exists>cs. calls (snd (playNote e p v s)) = calls s @ cs \<and> list_all is_teardown cs))
   \<and> (\<not> isBuilt (exec evs PianoModel) \<longrightarrow>
      activeNotes (exec evs PianoModel) = []
      \<and> playNote e p v (exec evs PianoModel)
          = (Normal, (exec evs PianoModel)\<lparr>console := console (exec evs PianoModel) @ [Warn PianoNotBuilt]\<rparr>))"
proof -
  have general: "fst (playNote e p v s) = Normal
      \<and> next_ref (snd (playNote e p v s)) = next_ref s
      \<and> activeNotes (snd (playNote e p v s)) = AList.delete p (activeNotes s)
      \<and> (\<exists>cs. calls (snd (playNote e p v s)) = calls s @ cs \<and> list_all is_teardown cs)"
    if "\<not> isBuilt s"
  proof -
    have "next_ref (snd (forceStopNote e p s)) = next_ref s"
      by (rule keepsD [OF keeps_forceStopNote]) simp_all
    moreover from appends_forceStopNote [of e p]
    have "\<exists>cs. calls (snd (forceStopNote e p s)) = calls s @ cs \<and> list_all is_teardown cs"
      by (simp add: appends_def)
    ultimately show ?thesis
      using that by (simp add: playNote_eq activeNotes_forceStopNote)
  qed
  have reachable: "activeNotes (exec evs PianoModel) = []
      \<and> playNote e p v (exec evs PianoModel)
          = (Normal, (exec evs PianoModel)\<lparr>console := console (exec evs PianoModel) @ [Warn PianoNotBuilt]\<rparr>)"
    if unbuilt: "\<not> isBuilt (exec evs PianoModel)"
  proof -
    have "registry_ok (exec evs PianoModel)"
      by (rule registry_ok_reachable)
    with unbuilt have empty: "activeNotes (exec evs PianoModel) = []"
      by (simp add: registry_ok_def)
    then have "forceStopNote e p (exec evs PianoModel) = (Normal, exec evs PianoModel)"
      by (simp add: forceStopNote_unregistered)
    with unbuilt empty show ?thesis by (simp add: playNote_eq)
  qed
  from general reachable show ?thesis by blast
qed

theorem playNote_before_build_witness:
  "\<not> isBuilt PianoModel
   \<and> \<not> isBuilt (exec [(quiet 0, StopNote 60), (quiet 1, SetMaterial ''glass'')] PianoModel)
   \<and> playNote (quiet 2) 60 0.7 (exec [(quiet 0, StopNote 60), (quiet 1, SetMaterial ''glass'')] PianoModel)
     = (Normal, PianoModel\<lparr>material := ''glass'', console := [Warn PianoNotBuilt]\<rparr>)
   \<and> next_ref (snd (playNote (quiet 2) 60 0.7 PianoModel)) = 1
   \<and> activeNotes (snd (playNote (quiet 2) 60 0.7 PianoModel)) = []"
proof -
  have run: "exec [(quiet 0, StopNote 60), (quiet 1, SetMaterial ''glass'')] PianoModel
      = PianoModel\<lparr>material := ''glass''\<rparr>"
    by (simp add: stopNote_def setMaterial_def)
  from playNote_before_build [of PianoModel "quiet 2" 60 "0.7"
      "[(quiet 0, StopNote 60), (quiet 1, SetMaterial ''glass'')]"]
  show ?thesis unfolding run by simp
qed

subsection \<open>forceStopNote on a run\<close>

text \<open>
  On a pitch without a voice, and on the sounding pitch 60 with a backend on which every
  automation call and every \<^verbatim>\<open>stop\<close> raises.
\<close>

theorem forceStopNote_always_removes_witness:
  "map_of (activeNotes PianoModel) 60 = None
   \<and> forceStopNote (quiet 0) 60 PianoModel = (Normal, PianoModel)
   \<and> stopNote (quiet 0) 60 PianoModel = (Normal, PianoModel)
   \<and> map_of (activeNotes played) 60 = Some voice_A
   \<and> fst (forceStopNote ((quiet 2)\<lparr>automation_throws := \<lambda>_. True, stop_throws := \<lambda>_. True\<rparr>) 60 played)
       = Normal
   \<and> map_of (activeNotes (snd (forceStopNote
         ((quiet 2)\<lparr>automation_throws := \<lambda>_. True, stop_throws := \<lambda>_. True\<rparr>) 60 played))) 60 = None"
  using forceStopNote_always_removes [of "quiet 0" 60 PianoModel "quiet 0"]
    forceStopNote_always_removes
      [of "(quiet 2)\<lparr>automation_throws := \<lambda>_. True, stop_throws := \<lambda>_. True\<rparr>" 60 played "quiet 0"]
  by (simp add: played_simps)

subsection \<open>stopAllNotes force-stops every voice\<close>





lemma voice_refs:
  "noteGain voice_B = 12" "harmonicGain voice_B = 15" "effectGain voice_B = 17"
  "oscillator voice_B = 11" "oscillator2 voice_B = 14" "oscillator3 voice_B = 16"
  "oscillator4 voice_B = None" "experimentalGain voice_B = None"
  "noteGain voice_C = 22" "harmonicGain voice_C = 25" "effectGain voice_C = 27"
  "oscillator voice_C = 21" "oscillator2 voice_C = 24" "oscillator3 voice_C = 26"
  "oscillator4 voice_C = None" "experimentalGain voice_C = None"
  "oscillator voice_A = 1" "oscillator2 voice_A = 4" "oscillator3 voice_A = 6"
  "oscillator4 voice_A = None" "releaseTime voice_A = 0.38"
  by (simp_all add: voice_A_def voice_B_def voice_C_def note_record_def allocate_def releaseTime_of_def)




subsection \<open>Two voices of one pitch\<close>

lemma stop_calls_of_voice: "filter is_stop (voice_calls e s p v) = []"
  by (simp add: voice_calls_def Let_def create_calls_def material_calls_def connect_calls_def
      envelope_calls_def start_calls_def)

lemma start_calls_of_teardown: "filter is_start (teardown_calls e v t1 t2) = []"
  by (simp add: teardown_calls_def fade_calls_def split: option.split)

lemma stop_calls_of_teardown:
  "filter is_stop (teardown_calls e v t1 t2)
     = [Stop (oscillator v) t2, Stop (oscillator2 v) t2, Stop (oscillator3 v) t2]
       @ (case oscillator4 v of None \<Rightarrow> [] | Some o4 \<Rightarrow> [Stop o4 t2])"
  by (simp add: teardown_calls_def fade_calls_def split: option.split)

lemma calls_built: "calls built = [CreateGain 0, SetGain 0 0.7, ConnectDestination 0]"
  by (simp add: built_def buildPiano_empty PianoModel_def)

lemma calls_played: "calls played = calls built @ voice_calls (quiet 1) built 60 0.7"
  by (simp add: played_def playNote_eq built_simps forceStopNote_unregistered start_voice_ok)

lemma calls_released:
  "calls released = calls played @ teardown_calls (quiet 2) voice_A 2.38 2.53"
  by (simp add: released_def stopNote_def played_simps release_voice_quiet voice_refs)

lemma calls_replayed:
  "calls replayed = calls released @ teardown_calls (quiet 2.2) voice_A 2.205 2.21
     @ voice_calls (quiet 2.2) released 60 0.7"
  by (simp add: replayed_def playNote_eq forceStopNote_def released_simps force_stop_voice_quiet
      start_voice_ok voice_calls_def)

lemma orphaned_simps:
  "isBuilt orphaned" "activeNotes orphaned = []" "next_ref orphaned = 21"
  "material orphaned = ''wood''" "masterGain orphaned = 0"
  "dimensions orphaned = dimensions PianoModel" "calls orphaned = calls replayed"
  by (simp_all add: orphaned_def fire_timer_def replayed_simps released_simps replayed_more)

lemma restruck_registry: "activeNotes restruck = [(60, voice_C)]"
  by (simp add: restruck_def playNote_eq forceStopNote_unregistered orphaned_simps start_voice_ok
      voice_C_def)

lemma calls_restruck: "calls restruck = calls replayed @ voice_calls (quiet 3) orphaned 60 0.7"
  by (simp add: restruck_def playNote_eq forceStopNote_unregistered orphaned_simps start_voice_ok)

text \<open>
  Claim C1 (evaluated on a run). Pitch 60 is struck, released, struck again within the
  480 ms of the primary cleanup timer, and struck a third time after that timer has fired.
  The timer has deleted the entry of the second voice, so the third \<^verbatim>\<open>playNote\<close> finds no
  voice to force-stop. The registry holds one entry, the third voice; but the oscillators
  11, 14 and 16 of the second voice were started and no \<^verbatim>\<open>stop\<close> was ever called on them,
  while 21, 24 and 26 of the third voice are started: two voices of pitch 60 sound together.
\<close>

theorem two_voices_after_stale_cleanup:
  "restruck = exec [(quiet 0, BuildPiano), (quiet 1, PlayNote 60 0.7), (quiet 2, StopNote 60),
                    (quiet 2.2, PlayNote 60 0.7), (quiet 2.48, TimerFires 0),
                    (quiet 3, PlayNote 60 0.7)] PianoModel
   \<and> activeNotes replayed = [(60, voice_B)]
   \<and> activeNotes orphaned = []
   \<and> activeNotes restruck = [(60, voice_C)]
   \<and> filter is_start (calls restruck)
       = [Start 1 1, Start 4 1, Start 6 1,
          Start 11 2.2, Start 14 2.2, Start 16 2.2,
          Start 21 3, Start 24 3, Start 26 3]
   \<and> filter is_stop (calls restruck)
       = [Stop 1 2.53, Stop 4 2.53, Stop 6 2.53,
          Stop 1 2.21, Stop 4 2.21, Stop 6 2.21]"
proof -
  have "restruck = exec [(quiet 0, BuildPiano), (quiet 1, PlayNote 60 0.7), (quiet 2, StopNote 60),
                    (quiet 2.2, PlayNote 60 0.7), (quiet 2.48, TimerFires 0),
                    (quiet 3, PlayNote 60 0.7)] PianoModel"
    by (simp add: restruck_def orphaned_def replayed_def released_def played_def built_def)
  moreover have "filter is_start (calls restruck)
       = [Start 1 1, Start 4 1, Start 6 1,
          Start 11 2.2, Start 14 2.2, Start 16 2.2,
          Start 21 3, Start 24 3, Start 26 3]"
    by (simp add: calls_restruck calls_replayed calls_released calls_played calls_built
        start_calls_of_voice start_calls_of_teardown built_simps released_simps orphaned_simps)
  moreover have "filter is_stop (calls restruck)
       = [Stop 1 2.53, Stop 4 2.53, Stop 6 2.53,
          Stop 1 2.21, Stop 4 2.21, Stop 6 2.21]"
    by (simp add: calls_restruck calls_replayed calls_released calls_played calls_built
        stop_calls_of_voice stop_calls_of_teardown voice_refs)
  ultimately show ?thesis
    by (simp add: replayed_simps orphaned_simps restruck_registry)
qed

text \<open>
  When the pitch has a registered voice and the backend raises nothing, \<^verbatim>\<open>playNote\<close>
  fades and stops that voice before it creates the nodes of the new one.
\<close>

lemma playNote_restrike_calls:
  assumes "isBuilt s" and "map_of (activeNotes s) p = Some old"
    and "\<And>g. \<not> automation_throws e g" and "\<And>r. \<not> stop_throws e r"
  shows "calls (snd (playNote e p v s))
    = calls s @ teardown_calls e old (currentTime e + 0.005) (currentTime e + 0.01)
      @ voice_calls e s p v"
proof -
  let ?s1 = "snd (forceStopNote e p s)"
  have s1: "?s1 = s\<lparr>calls := calls s @ teardown_calls e old (currentTime e + 0.005) (currentTime e + 0.01),
                activeNotes := AList.delete p (activeNotes s),
                console := console s @ [Log (ForceStopped p)]\<rparr>"
    using assms(2) by (simp add: forceStopNote_def force_stop_voice_quiet [OF assms(3,4)])
  have "voice_calls e ?s1 p v = voice_calls e s p v"
    by (simp add: s1 voice_calls_def)
  moreover have "\<not> automation_throws e (Suc (next_ref ?s1))"
    by (rule assms(3))
  ultimately show ?thesis
    using assms(1) by (simp add: playNote_eq start_voice_ok) (simp add: s1)
qed

subsection \<open>The envelope on the default instrument\<close>

lemma calls_played_envelope:
  "set (envelope_calls (dimensions PianoModel) (allocate 1) 0.7 1) \<subseteq> set (calls played)"
  using envelope_calls_of_voice [of built "0.7" "quiet 1" 60]
  by (auto simp: calls_played built_simps)

text \<open>
  Claim C5 (evaluated). On the default instrument (width 280) the sustain level is 1.22:
  \<^verbatim>\<open>playNote(60, 0.7)\<close> ramps the gain to 0.7 and then on to 0.854, outside the range
  "0.1 to 0.9" of the comment in the source and above the peak. At length 300 the
  release time is 1.15 s, above the 0.8 s of the comment. The attack time is 0.0703 s at
  height 30 and 0.0307 s at height 70: the taller instrument has the faster attack, where the
  comment says "smaller height = faster attack".
\<close>

theorem envelope_outside_commented_ranges:
  "sustainLevel (dimensions PianoModel) = 1.22
   \<and> LinearRampToValueAtTime 2 0.7 1.0604 \<in> set (calls played)
   \<and> LinearRampToValueAtTime 2 0.854 1.4904 \<in> set (calls played)
   \<and> releaseTime_of \<lparr>length_cm = 300, width_cm = 280, height_cm = 40\<rparr> = 1.15
   \<and> attackTime \<lparr>length_cm = 80, width_cm = 280, height_cm = 30\<rparr> = 0.0703
   \<and> attackTime \<lparr>length_cm = 80, width_cm = 280, height_cm = 70\<rparr> = 0.0307"
proof -
  have "envelope_calls (dimensions PianoModel) (allocate 1) 0.7 1
      = [SetValueAtTime 2 0 1, LinearRampToValueAtTime 2 0.7 1.0604,
         LinearRampToValueAtTime 2 0.854 1.4904]"
    by (simp add: envelope_calls_def allocate_def attackTime_def decayTime_def sustainLevel_def)
  with calls_played_envelope
  have "LinearRampToValueAtTime 2 0.7 1.0604 \<in> set (calls played)"
    "LinearRampToValueAtTime 2 0.854 1.4904 \<in> set (calls played)"
    by simp_all
  then show ?thesis
    by (simp add: sustainLevel_def releaseTime_of_def attackTime_def)
qed

end
